theory Spec2Isabelle
  imports Complex_Main
begin

section \<open>Python strings\<close>

text \<open>
  A Python \<open>str\<close> is modelled as a \<open>string\<close>, one \<open>char\<close> per code point (the code
  points below 256). \<open>str.strip()\<close> without argument removes the characters for which
  \<open>str.isspace\<close> holds; below 256 these are the twelve code points listed here.
\<close>

definition py_isspace :: "char \<Rightarrow> bool" where
  "py_isspace c = (of_char c \<in> {9, 10, 11, 12, 13, 28, 29, 30, 31, 32, 133, 160 :: nat})"

definition py_lstrip :: "string \<Rightarrow> string" where
  "py_lstrip s = dropWhile py_isspace s"

definition py_rstrip :: "string \<Rightarrow> string" where
  "py_rstrip s = rev (dropWhile py_isspace (rev s))"

definition py_strip :: "string \<Rightarrow> string" where
  "py_strip s = py_rstrip (py_lstrip s)"

text \<open>The slices \<open>x[a:b]\<close> and \<open>x[a:]\<close> for constant bounds \<open>0 \<le> a \<le> b\<close>.\<close>

definition slice :: "nat \<Rightarrow> nat \<Rightarrow> string \<Rightarrow> string" where
  "slice a b x = take (b - a) (drop a x)"

definition slice_from :: "nat \<Rightarrow> string \<Rightarrow> string" where
  "slice_from a x = drop a x"

text \<open>
  \<open>s.split(sep)\<close> for a non-empty separator: the pieces between the non-overlapping
  occurrences of \<open>sep\<close>, found from the left. \<open>acc\<close> is the current piece, reversed.
\<close>

function split_from :: "string \<Rightarrow> string \<Rightarrow> string \<Rightarrow> string list" where
  "split_from sep acc [] = [rev acc]"
| "split_from sep acc (c # cs) =
     (if sep \<noteq> [] \<and> take (length sep) (c # cs) = sep
      then rev acc # split_from sep [] (drop (length sep) (c # cs))
      else split_from sep (c # acc) cs)"
  by pat_completeness auto
termination
  by (relation "measure (\<lambda>(sep, acc, s). length s)") auto

section \<open>Errors and console output\<close>

text \<open>
  Every exception the pipeline can raise is a value. \<open>Fetch_failed\<close> stands for whatever
  \<open>urlopen\<close>, \<open>read\<close> or \<open>decode\<close> raise, \<open>Parse_failed\<close> for whatever \<open>pd.read_csv\<close>
  raises and \<open>Connect_failed\<close> for the \<open>sqlite3.Error\<close> of \<open>sqlite3.connect\<close>.
\<close>

datatype error =
    IndexError
  | ValueError
  | KeyError string
  | TypeError
  | AttributeError
  | NameError string
  | OperationalError
  | ProgrammingError
  | IntegrityError
  | OverflowError
  | Fetch_failed
  | Parse_failed
  | Connect_failed

text \<open>The lines the functions print, in the order of the source.\<close>

datatype line =
    Error_line error
  | Unable_to_read_the_text_file
  | Unable_to_read_text_file
  | Inserted_records nat
  | Opened_database_successfully
  | Connect_error error
  | Created_view nat

text \<open>
  The observable effects of a run: the URLs opened and the lines printed, in order.
\<close>

datatype event = Urlopen string | Print line

section \<open>Fetcher: \<open>read_text_from_url\<close>\<close>

text \<open>
  The network is a parameter: \<open>net url\<close> is the decoded text of the response, or the
  exception raised on the way. The function catches every exception, prints it and
  returns \<open>None\<close>.
\<close>

definition read_text_from_url :: "(string \<Rightarrow> error + string) \<Rightarrow> string \<Rightarrow> string option \<times> event list" where
  "read_text_from_url net url =
     (case net url of
        Inr text \<Rightarrow> (Some text, [Urlopen url])
      | Inl e \<Rightarrow> (None, [Urlopen url, Print (Error_line e)]))"

section \<open>Series decomposer: the five slices of \<open>get_data_cols\<close>\<close>

definition prefix_of :: "string \<Rightarrow> string" where
  "prefix_of x = slice 0 2 x"

definition seasonal_of :: "string \<Rightarrow> string" where
  "seasonal_of x = slice 2 3 x"

definition periodicity_of :: "string \<Rightarrow> string" where
  "periodicity_of x = slice 3 4 x"

definition area_code_of :: "string \<Rightarrow> string" where
  "area_code_of x = slice 4 8 x"

definition item_code_of :: "string \<Rightarrow> string" where
  "item_code_of x = py_strip (slice_from 8 x)"

section \<open>Parsed tables: the data frames of pandas\<close>

text \<open>
  A cell of a frame: a missing value (\<open>NaN\<close>, which \<open>to_sql\<close> writes as SQL \<open>NULL\<close>), an
  integer, a string or a float. The same type serves for the values stored in the fact
  table. A float is represented by the real number it denotes.
\<close>

datatype cell = Null | IntC int | StrC string | FloatC real

text \<open>
  Floating-point arithmetic, the conversions between numbers and text, and random
  numbers are not modelled: where numpy or SQLite computes one of them, the result is
  taken from this parameter.
  \<^item> \<open>plus_one x\<close>: the float \<open>x + 1\<close> of numpy;
  \<^item> \<open>numeric_of_text s\<close>: the number SQLite reads from the text \<open>s\<close> when \<open>s\<close> is a
    well-formed integer or real literal (an integer when it is an integer literal that
    fits 64 bits), \<open>None\<close> otherwise;
  \<^item> \<open>text_of_real x\<close>: the text SQLite renders the float \<open>x\<close> as;
  \<^item> \<open>real_of_integer i\<close>: the float SQLite converts the integer \<open>i\<close> to;
  \<^item> \<open>random_rowid ids\<close>: the row id SQLite settles on when it has to pick one at
    random, the table holding the row ids \<open>ids\<close>.
\<close>

datatype number = IntN int | RealN real

record libs =
  plus_one :: "real \<Rightarrow> real"
  numeric_of_text :: "string \<Rightarrow> number option"
  text_of_real :: "real \<Rightarrow> string"
  real_of_integer :: "int \<Rightarrow> real"
  random_rowid :: "int list \<Rightarrow> int"

text \<open>
  The row index of a frame: the default \<open>RangeIndex(n)\<close> with the labels \<open>0, \<dots>, n - 1\<close>,
  or explicit labels (\<open>pd.read_csv\<close> takes the first field of the rows as their label when
  the rows have one field more than the header). A frame has an index and a list of
  named columns, each with one cell per row.
\<close>

datatype row_index = RangeIndex nat | Labels "cell list"

record frame =
  index :: row_index
  columns :: "(string \<times> cell list) list"

definition nrows :: "frame \<Rightarrow> nat" where
  "nrows df = (case index df of RangeIndex n \<Rightarrow> n | Labels ls \<Rightarrow> length ls)"

text \<open>
  \<open>data.index + 1\<close>. On a \<open>RangeIndex\<close> the sum is exact. Explicit integer labels are an
  array of 64-bit integers, unsigned when a label does not fit the signed range, and the
  sum wraps around; float labels are added as floats and \<open>NaN\<close> stays \<open>NaN\<close>; a string
  label raises \<open>TypeError\<close>.
\<close>

definition wrap_int64 :: "int \<Rightarrow> int" where
  "wrap_int64 i = (i + 2 ^ 63) mod 2 ^ 64 - 2 ^ 63"

definition is_unsigned :: "cell list \<Rightarrow> bool" where
  "is_unsigned ls = list_ex (\<lambda>c. case c of IntC i \<Rightarrow> 2 ^ 63 \<le> i | _ \<Rightarrow> False) ls"

definition label_plus_one :: "libs \<Rightarrow> bool \<Rightarrow> cell \<Rightarrow> cell" where
  "label_plus_one lib unsigned c =
     (case c of
        Null \<Rightarrow> Null
      | IntC i \<Rightarrow> IntC (if unsigned then (i + 1) mod 2 ^ 64 else wrap_int64 (i + 1))
      | StrC s \<Rightarrow> StrC s
      | FloatC x \<Rightarrow> FloatC (plus_one lib x))"

definition index_plus_one :: "libs \<Rightarrow> row_index \<Rightarrow> error + cell list" where
  "index_plus_one lib ix =
     (case ix of
        RangeIndex n \<Rightarrow> Inr (map (\<lambda>i. IntC (int i + 1)) [0..<n])
      | Labels ls \<Rightarrow>
          if list_ex (\<lambda>c. case c of StrC s \<Rightarrow> True | _ \<Rightarrow> False) ls then Inl TypeError
          else Inr (map (label_plus_one lib (is_unsigned ls)) ls))"

definition wf_frame :: "frame \<Rightarrow> bool" where
  "wf_frame df = (distinct (map fst (columns df)) \<and> list_all (\<lambda>p. length (snd p) = nrows df) (columns df))"

text \<open>
  \<open>data[name] = col\<close>: replaces every column of that name, or adds the column as the last
  one when there is none.
\<close>

definition set_col_list :: "string \<Rightarrow> cell list \<Rightarrow> (string \<times> cell list) list \<Rightarrow> (string \<times> cell list) list" where
  "set_col_list name col ps =
     (if list_ex (\<lambda>p. fst p = name) ps then map (\<lambda>p. if fst p = name then (name, col) else p) ps
      else ps @ [(name, col)])"

definition set_col :: "string \<Rightarrow> cell list \<Rightarrow> frame \<Rightarrow> frame" where
  "set_col name col df = df\<lparr>columns := set_col_list name col (columns df)\<rparr>"

text \<open>\<open>data[name]\<close>: raises \<open>KeyError\<close> when there is no such column.\<close>

definition get_col :: "frame \<Rightarrow> string \<Rightarrow> error + cell list" where
  "get_col df name =
     (case map_of (columns df) name of None \<Rightarrow> Inl (KeyError name) | Some col \<Rightarrow> Inr col)"

text \<open>
  \<open>column.apply(lambda x: ...)\<close> with a lambda that slices \<open>x\<close>: a cell that is not a string
  cannot be sliced, and the exception ends the whole call.
\<close>

fun apply_str :: "(string \<Rightarrow> string) \<Rightarrow> cell list \<Rightarrow> error + cell list" where
  "apply_str f [] = Inr []"
| "apply_str f (StrC s # cs) =
     (case apply_str f cs of Inl e \<Rightarrow> Inl e | Inr r \<Rightarrow> Inr (StrC (f s) # r))"
| "apply_str f (c # cs) = Inl TypeError"

text \<open>Sequencing of steps that may raise.\<close>

definition and_then :: "error + 'a \<Rightarrow> ('a \<Rightarrow> error + 'b) \<Rightarrow> error + 'b" where
  "and_then m f = (case m of Inl e \<Rightarrow> Inl e | Inr x \<Rightarrow> f x)"

text \<open>
  One line \<open>data[name] = data['series_id'].apply(lambda x: f x)\<close>. When more than one
  column is named \<open>series_id\<close>, \<open>data['series_id']\<close> is a frame and not a column, and the
  line raises \<open>ValueError\<close>.
\<close>

definition count_cols :: "frame \<Rightarrow> string \<Rightarrow> nat" where
  "count_cols df name = length (filter (\<lambda>p. fst p = name) (columns df))"

definition derive_col :: "string \<Rightarrow> (string \<Rightarrow> string) \<Rightarrow> frame \<Rightarrow> error + frame" where
  "derive_col name f data =
     (if 1 < count_cols data ''series_id'' then Inl ValueError
      else and_then (get_col data ''series_id'') (\<lambda>sid.
           and_then (apply_str f sid) (\<lambda>col.
           Inr (set_col name col data))))"

definition get_data_cols :: "libs \<Rightarrow> frame \<Rightarrow> error + frame" where
  "get_data_cols lib data =
     and_then (index_plus_one lib (index data)) (\<lambda>ids.
     and_then (Inr (set_col ''id'' ids data)) (\<lambda>data.
     and_then (derive_col ''prefix'' prefix_of data) (\<lambda>data.
     and_then (derive_col ''seasonal'' seasonal_of data) (\<lambda>data.
     and_then (derive_col ''periodicity'' periodicity_of data) (\<lambda>data.
     and_then (derive_col ''area_code'' area_code_of data) (\<lambda>data.
     and_then (derive_col ''item_code'' item_code_of data) (\<lambda>data.
     Inr data)))))))"

text \<open>
  \<open>data[cols]\<close>: for each name of \<open>cols\<close> in turn, every column of that name; a missing
  name raises.
\<close>

definition arrange_data_cols :: "frame \<Rightarrow> string list \<Rightarrow> error + frame" where
  "arrange_data_cols data cols =
     (case find (\<lambda>c. map_of (columns data) c = None) cols of
        Some c \<Rightarrow> Inl (KeyError c)
      | None \<Rightarrow> Inr (data\<lparr>columns := concat (map (\<lambda>c. filter (\<lambda>p. fst p = c) (columns data)) cols)\<rparr>))"

text \<open>
  Parser: \<open>pd.read_csv\<close> is a parameter (the text and the separator to a frame, or the
  exception raised). \<open>text_to_df\<close> strips the column names; on an exception it prints it
  and returns \<open>None\<close>.
\<close>

definition text_to_df :: "(string \<Rightarrow> string \<Rightarrow> error + frame) \<Rightarrow> string \<Rightarrow> string \<Rightarrow> frame option \<times> event list" where
  "text_to_df read_csv text separator =
     (case read_csv text separator of
        Inr df \<Rightarrow> (Some (df\<lparr>columns := map (\<lambda>p. (py_strip (fst p), snd p)) (columns df)\<rparr>), [])
      | Inl e \<Rightarrow> (None, [Print (Error_line e)]))"

section \<open>The stored tables\<close>

text \<open>
  The state of the database after \<open>create_db.main\<close>: the three dimension tables and the
  fact table \<open>data\<close>. A dimension row is the list of the strings bound to its columns;
  all three tables have their primary key in the first column, and the view reads only
  \<open>TEXT\<close> columns of them, in which SQLite stores a bound string unchanged. A row of the
  fact table holds the values as SQLite stores them, coerced to the type of their column.
\<close>

datatype dim_table = Areas | Periods | Items

fun table_arity :: "dim_table \<Rightarrow> nat" where
  "table_arity Areas = 5"
| "table_arity Periods = 3"
| "table_arity Items = 5"

record obs =
  row_id :: int
  series_id :: cell
  prefix :: cell
  seasonal :: cell
  periodicity :: cell
  area_code :: cell
  item_code :: cell
  year :: cell
  period :: cell
  val :: cell
  footnote_codes :: cell

record db =
  areas :: "string list list"
  periods :: "string list list"
  items :: "string list list"
  data :: "obs list"

definition init_db :: db where
  "init_db = \<lparr>areas = [], periods = [], items = [], data = []\<rparr>"

fun get_table :: "db \<Rightarrow> dim_table \<Rightarrow> string list list" where
  "get_table conn Areas = areas conn"
| "get_table conn Periods = periods conn"
| "get_table conn Items = items conn"

fun set_table :: "db \<Rightarrow> dim_table \<Rightarrow> string list list \<Rightarrow> db" where
  "set_table conn Areas t = conn\<lparr>areas := t\<rparr>"
| "set_table conn Periods t = conn\<lparr>periods := t\<rparr>"
| "set_table conn Items t = conn\<lparr>items := t\<rparr>"

text \<open>The primary key of a dimension row: its first column.\<close>

definition pk :: "string list \<Rightarrow> string list" where
  "pk r = take 1 r"

section \<open>Loader of the dimension tables: \<open>insert_non_data_table\<close>\<close>

text \<open>
  \<open>text.strip().split('\n')\<close>, without its first line, each line split at the separator.
  \<open>str.split\<close> raises \<open>ValueError\<close> on an empty separator; with no data line it is never
  called.
\<close>

definition split_rows :: "string \<Rightarrow> string \<Rightarrow> error + string list list" where
  "split_rows text separator =
     (let rows = tl (split_from [CHR 0x0A] [] (py_strip text))
      in if rows = [] then Inr []
         else if separator = [] then Inl ValueError
         else Inr (map (split_from separator []) rows))"

text \<open>
  \<open>cursor.executemany\<close> of \<open>INSERT OR IGNORE INTO table VALUES (?, \<dots>, ?)\<close> with \<open>n\<close>
  placeholders: the rows are bound one after the other; a row of another width raises
  \<open>ProgrammingError\<close>; a row whose primary key is already in the table is skipped;
  \<open>rowcount\<close> counts the rows inserted.
\<close>

fun executemany_or_ignore :: "nat \<Rightarrow> string list list \<times> nat \<Rightarrow> string list list \<Rightarrow> error + string list list \<times> nat" where
  "executemany_or_ignore n (tbl, rowcount) [] = Inr (tbl, rowcount)"
| "executemany_or_ignore n (tbl, rowcount) (r # rs) =
     (if length r \<noteq> n then Inl ProgrammingError
      else if pk r \<in> set (map pk tbl) then executemany_or_ignore n (tbl, rowcount) rs
      else executemany_or_ignore n (tbl @ [r], Suc rowcount) rs)"

text \<open>
  The body of \<open>with conn:\<close>. \<open>rows[0]\<close> raises \<open>IndexError\<close> when there is no row; the
  statement with \<open>len(rows[0])\<close> placeholders is rejected (\<open>OperationalError\<close>) when the
  table has another number of columns. An exception leaves the block through a rollback,
  so the result is either an error, with the connection's tables as they were, or the
  committed tables.
\<close>

definition bulk_insert :: "db \<Rightarrow> dim_table \<Rightarrow> string list list \<Rightarrow> error + db \<times> nat" where
  "bulk_insert conn table_name rows =
     (case rows of
        [] \<Rightarrow> Inl IndexError
      | r0 # _ \<Rightarrow>
          if length r0 \<noteq> table_arity table_name then Inl OperationalError
          else and_then (executemany_or_ignore (length r0) (get_table conn table_name, 0) rows)
                 (\<lambda>(t, rowcount). Inr (set_table conn table_name t, rowcount)))"

definition insert_non_data_table :: "(string \<Rightarrow> error + string) \<Rightarrow> db \<Rightarrow> string \<Rightarrow> dim_table \<Rightarrow> string \<Rightarrow> db \<times> event list" where
  "insert_non_data_table net conn url table_name separator =
     (case read_text_from_url net url of (text, out) \<Rightarrow>
        (case text of
           None \<Rightarrow> (conn, out @ [Print Unable_to_read_the_text_file])
         | Some t \<Rightarrow>
             if t = [] then (conn, out @ [Print Unable_to_read_the_text_file])
             else (case and_then (split_rows t separator) (bulk_insert conn table_name) of
                     Inl e \<Rightarrow> (conn, out @ [Print (Error_line e)])
                   | Inr (conn', rowcount) \<Rightarrow> (conn', out @ [Print (Inserted_records rowcount)]))))"

section \<open>Loader of the fact table: \<open>insert_data_table\<close>\<close>

definition data_columns :: "string list" where
  "data_columns = [''id'', ''series_id'', ''prefix'', ''seasonal'', ''periodicity'', ''area_code'',
     ''item_code'', ''year'', ''period'', ''value'', ''footnote_codes'']"

text \<open>Row \<open>i\<close> of a frame, as the named values bound by \<open>to_sql\<close>.\<close>

definition row_at :: "frame \<Rightarrow> nat \<Rightarrow> (string \<times> cell) list" where
  "row_at df i = map (\<lambda>p. (fst p, snd p ! i)) (columns df)"

text \<open>
  SQLite resolves the column names of a statement without regard to the case of ASCII
  letters, and \<open>rowid\<close>, \<open>oid\<close> and \<open>_rowid_\<close> name the row id, which is the column \<open>id\<close>
  here.
\<close>

definition lower :: "char \<Rightarrow> char" where
  "lower c =
     (case map_of (zip ''ABCDEFGHIJKLMNOPQRSTUVWXYZ'' ''abcdefghijklmnopqrstuvwxyz'') c of
        None \<Rightarrow> c
      | Some l \<Rightarrow> l)"

definition sql_name :: "string \<Rightarrow> string" where
  "sql_name name =
     (if map lower name \<in> {''rowid'', ''oid'', ''_rowid_''} then ''id'' else map lower name)"

definition resolved :: "frame \<Rightarrow> frame" where
  "resolved df = df\<lparr>columns := map (\<lambda>p. (sql_name (fst p), snd p)) (columns df)\<rparr>"

text \<open>
  The value an \<open>INSERT INTO data (c1, \<dots>) VALUES (?, \<dots>)\<close> gives to a column of the
  table: the value bound to its name, \<open>NULL\<close> when the column is not named. When it is
  named more than once, the row id takes the last value and any other column the first.
\<close>

definition field :: "(string \<times> cell) list \<Rightarrow> string \<Rightarrow> cell" where
  "field kv name =
     (case map_of (if name = ''id'' then rev kv else kv) name of None \<Rightarrow> Null | Some v \<Rightarrow> v)"

text \<open>
  Binding a Python integer that does not fit 64 bits raises \<open>OverflowError\<close>.
\<close>

definition bindable :: "cell \<Rightarrow> bool" where
  "bindable c = (case c of IntC i \<Rightarrow> - (2 ^ 63) \<le> i \<and> i < 2 ^ 63 | _ \<Rightarrow> True)"

text \<open>
  The column affinities of SQLite. A float becomes an integer in an \<open>INTEGER\<close> column
  when it is one, strictly between \<open>-2^63\<close> and \<open>2^63\<close>; a text that is a numeric literal
  becomes that number in an \<open>INTEGER\<close> or \<open>REAL\<close> column; a number becomes its text in a
  \<open>TEXT\<close> column.
\<close>

definition integer_if_exact :: "real \<Rightarrow> cell" where
  "integer_if_exact x =
     (if of_int \<lfloor>x\<rfloor> = x \<and> - (2 ^ 63) < x \<and> x < 2 ^ 63 then IntC \<lfloor>x\<rfloor> else FloatC x)"

definition integer_affinity :: "libs \<Rightarrow> cell \<Rightarrow> cell" where
  "integer_affinity lib c =
     (case c of
        Null \<Rightarrow> Null
      | IntC i \<Rightarrow> IntC i
      | StrC s \<Rightarrow> (case numeric_of_text lib s of
                    None \<Rightarrow> StrC s
                  | Some (IntN i) \<Rightarrow> IntC i
                  | Some (RealN x) \<Rightarrow> integer_if_exact x)
      | FloatC x \<Rightarrow> integer_if_exact x)"

definition real_affinity :: "libs \<Rightarrow> cell \<Rightarrow> cell" where
  "real_affinity lib c =
     (case c of
        Null \<Rightarrow> Null
      | IntC i \<Rightarrow> FloatC (real_of_integer lib i)
      | StrC s \<Rightarrow> (case numeric_of_text lib s of
                    None \<Rightarrow> StrC s
                  | Some (IntN i) \<Rightarrow> FloatC (real_of_integer lib i)
                  | Some (RealN x) \<Rightarrow> FloatC x)
      | FloatC x \<Rightarrow> FloatC x)"

text \<open>The decimal digits of an integer, as SQLite renders it in a \<open>TEXT\<close> column.\<close>

function digits :: "int \<Rightarrow> string" where
  "digits n = (if n < 10 then [char_of (48 + n)] else digits (n div 10) @ [char_of (48 + n mod 10)])"
  by pat_completeness auto
termination
  by (relation "measure nat") auto

definition decimal :: "int \<Rightarrow> string" where
  "decimal i = (if i < 0 then CHR ''-'' # digits (- i) else digits i)"

definition text_affinity :: "libs \<Rightarrow> cell \<Rightarrow> cell" where
  "text_affinity lib c =
     (case c of
        Null \<Rightarrow> Null
      | IntC i \<Rightarrow> StrC (decimal i)
      | StrC s \<Rightarrow> StrC s
      | FloatC x \<Rightarrow> StrC (text_of_real lib x))"

text \<open>The row stored for the bound values \<open>kv\<close> under the row id \<open>i\<close>.\<close>

definition mk_obs :: "libs \<Rightarrow> int \<Rightarrow> (string \<times> cell) list \<Rightarrow> obs" where
  "mk_obs lib i kv =
     \<lparr>row_id = i,
      series_id = text_affinity lib (field kv ''series_id''),
      prefix = text_affinity lib (field kv ''prefix''),
      seasonal = text_affinity lib (field kv ''seasonal''),
      periodicity = text_affinity lib (field kv ''periodicity''),
      area_code = text_affinity lib (field kv ''area_code''),
      item_code = text_affinity lib (field kv ''item_code''),
      year = integer_affinity lib (field kv ''year''),
      period = text_affinity lib (field kv ''period''),
      val = real_affinity lib (field kv ''value''),
      footnote_codes = text_affinity lib (field kv ''footnote_codes'')\<rparr>"

text \<open>
  SQLite compares stored values by storage class: an integer and a float are equal
  when they are the same number, a text is equal only to the same text. \<open>key\<close> maps the
  values that compare equal to one value.
\<close>

definition key :: "cell \<Rightarrow> cell" where
  "key c = (case c of FloatC x \<Rightarrow> if of_int \<lfloor>x\<rfloor> = x then IntC \<lfloor>x\<rfloor> else FloatC x | _ \<Rightarrow> c)"

text \<open>
  \<open>UNIQUE(series_id, year, period)\<close>: a new row conflicts with a stored one when the three
  values compare equal and none is \<open>NULL\<close>.
\<close>

definition unique_conflict :: "obs \<Rightarrow> obs \<Rightarrow> bool" where
  "unique_conflict r' r =
     (series_id r \<noteq> Null \<and> year r \<noteq> Null \<and> period r \<noteq> Null \<and>
      key (series_id r') = key (series_id r) \<and> key (year r') = key (year r) \<and>
      key (period r') = key (period r))"

definition store :: "obs list \<Rightarrow> obs \<Rightarrow> error + obs list" where
  "store tbl r = (if list_ex (\<lambda>r'. unique_conflict r' r) tbl then Inl IntegrityError else Inr (tbl @ [r]))"

text \<open>
  The row id of a row inserted with a \<open>NULL\<close> id: one more than the largest row id, 1 in
  an empty table; when the largest row id is \<open>2^63 - 1\<close>, SQLite tries row ids at random
  and gives up (the database is full) when it does not find an unused one.
\<close>

definition new_rowid :: "libs \<Rightarrow> obs list \<Rightarrow> error + int" where
  "new_rowid lib tbl =
     (if tbl = [] then Inr 1
      else if Max (set (map row_id tbl)) < 2 ^ 63 - 1 then Inr (Max (set (map row_id tbl)) + 1)
      else if random_rowid lib (map row_id tbl) \<in> set (map row_id tbl) then Inl OperationalError
      else Inr (random_rowid lib (map row_id tbl)))"

text \<open>
  The row id for the value bound to \<open>id\<close>, an \<open>INTEGER PRIMARY KEY\<close>: the value must be
  \<open>NULL\<close> or, coerced, an integer; anything else is a datatype mismatch.
\<close>

definition rowid_of :: "libs \<Rightarrow> obs list \<Rightarrow> cell \<Rightarrow> error + int" where
  "rowid_of lib tbl c =
     (case integer_affinity lib c of
        Null \<Rightarrow> new_rowid lib tbl
      | IntC i \<Rightarrow> Inr i
      | StrC s \<Rightarrow> Inl IntegrityError
      | FloatC x \<Rightarrow> Inl IntegrityError)"

text \<open>
  One \<open>INSERT\<close> into \<open>data\<close>: the values are bound, the row id is determined, and the
  constraints are checked. The primary key \<open>id\<close> is declared \<open>ON CONFLICT IGNORE\<close> and is
  checked first: a row whose id is already stored is skipped without an error. The
  \<open>UNIQUE\<close> constraint keeps the default resolution and raises \<open>IntegrityError\<close>.
\<close>

definition insert_one :: "libs \<Rightarrow> obs list \<Rightarrow> (string \<times> cell) list \<Rightarrow> error + obs list" where
  "insert_one lib tbl kv =
     (if \<not> list_all bindable (map snd kv) then Inl OverflowError
      else and_then (rowid_of lib tbl (field kv ''id'')) (\<lambda>i.
             if i \<in> set (map row_id tbl) then Inr tbl else store tbl (mk_obs lib i kv)))"

fun executemany_insert :: "libs \<Rightarrow> obs list \<Rightarrow> (string \<times> cell) list list \<Rightarrow> error + obs list" where
  "executemany_insert lib tbl [] = Inr tbl"
| "executemany_insert lib tbl (kv # rest) =
     and_then (insert_one lib tbl kv) (\<lambda>tbl'. executemany_insert lib tbl' rest)"

text \<open>
  \<open>data.to_sql(table_name, conn, if_exists='append', index=False)\<close> on the existing table
  \<open>data\<close>: pandas refuses a column name that is empty or contains a NUL character;
  nothing is executed for a frame without rows; a column the table does not have makes
  the statement fail; the rows are inserted in one transaction, which is rolled back
  when a row raises.
\<close>

definition to_sql :: "libs \<Rightarrow> frame \<Rightarrow> db \<Rightarrow> error + db" where
  "to_sql lib df conn =
     (if list_ex (\<lambda>name. name = [] \<or> CHR 0x00 \<in> set name) (map fst (columns df)) then Inl ValueError
      else if nrows df = 0 then Inr conn
      else if columns df = [] \<or> list_ex (\<lambda>name. name \<notin> set data_columns) (map fst (columns (resolved df)))
      then Inl OperationalError
      else and_then (executemany_insert lib (data conn) (map (row_at (resolved df)) [0..<nrows df]))
             (\<lambda>t. Inr (conn\<lparr>data := t\<rparr>)))"

text \<open>
  When \<open>text_to_df\<close> has returned \<open>None\<close>, \<open>get_data_cols\<close> raises on \<open>data.index\<close>.
\<close>

definition insert_data_table :: "libs \<Rightarrow> (string \<Rightarrow> error + string) \<Rightarrow> (string \<Rightarrow> string \<Rightarrow> error + frame) \<Rightarrow> db \<Rightarrow> string \<Rightarrow> string list \<Rightarrow> string \<Rightarrow> db \<times> event list" where
  "insert_data_table lib net read_csv conn url data_cols separator =
     (case read_text_from_url net url of (text, out) \<Rightarrow>
        (case text of
           None \<Rightarrow> (conn, out @ [Print Unable_to_read_text_file])
         | Some t \<Rightarrow>
             if t = [] then (conn, out @ [Print Unable_to_read_text_file])
             else (case text_to_df read_csv t separator of (df, out') \<Rightarrow>
                    (case and_then (case df of None \<Rightarrow> Inl AttributeError | Some d \<Rightarrow> get_data_cols lib d) (\<lambda>d.
                          and_then (arrange_data_cols d data_cols) (\<lambda>d.
                          to_sql lib d conn)) of
                       Inl e \<Rightarrow> (conn, out @ out' @ [Print (Error_line e)])
                     | Inr conn' \<Rightarrow> (conn', out @ out')))))"

section \<open>View builder: \<open>create_view\<close>\<close>

definition left_join :: "('l \<Rightarrow> 'r \<Rightarrow> bool) \<Rightarrow> 'l list \<Rightarrow> 'r list \<Rightarrow> ('l \<times> 'r option) list" where
  "left_join on ls rs =
     concat (map (\<lambda>l. case filter (on l) rs of
                         [] \<Rightarrow> [(l, None)]
                       | m # ms \<Rightarrow> map (\<lambda>m'. (l, Some m')) (m # ms)) ls)"

text \<open>Column \<open>i\<close> of a dimension row, as a value; \<open>NULL\<close> for a row that was not matched.\<close>

definition text_at :: "string list \<Rightarrow> nat \<Rightarrow> cell" where
  "text_at r i = (if i < length r then StrC (r ! i) else Null)"

definition col_of :: "string list option \<Rightarrow> nat \<Rightarrow> cell" where
  "col_of m i = (case m of None \<Rightarrow> Null | Some r \<Rightarrow> text_at r i)"

text \<open>An SQL comparison \<open>a = b\<close> in an \<open>ON\<close> clause: never true on \<open>NULL\<close>.\<close>

definition sql_eq :: "cell \<Rightarrow> cell \<Rightarrow> bool" where
  "sql_eq a b = (a \<noteq> Null \<and> b \<noteq> Null \<and> a = b)"

record view_row =
  v_series_id :: cell
  v_area_code :: cell
  v_area_name :: cell
  v_item_code :: cell
  v_item_name :: cell
  v_year :: cell
  v_period :: cell
  v_period_name :: cell
  v_value :: cell

definition select_cols :: "((obs \<times> string list option) \<times> string list option) \<times> string list option \<Rightarrow> view_row" where
  "select_cols j =
     (case j of (((d, a), i), p) \<Rightarrow>
        \<lparr>v_series_id = series_id d, v_area_code = area_code d, v_area_name = col_of a 1,
         v_item_code = item_code d, v_item_name = col_of i 1, v_year = year d,
         v_period = period d, v_period_name = col_of p 2, v_value = val d\<rparr>)"

text \<open>The rows of \<open>data_view\<close>: a view is a stored query, evaluated on the current tables.\<close>

definition data_view :: "db \<Rightarrow> view_row list" where
  "data_view conn =
     map select_cols
       (left_join (\<lambda>j p. sql_eq (text_at p 0) (period (fst (fst j))))
         (left_join (\<lambda>j i. sql_eq (text_at i 0) (item_code (fst j)))
           (left_join (\<lambda>d a. sql_eq (text_at a 0) (area_code d)) (data conn) (areas conn))
           (items conn))
         (periods conn))"

definition create_view :: "db \<Rightarrow> db \<times> event list" where
  "create_view conn = (conn, [Print (Created_view (length (data_view conn)))])"

section \<open>Orchestration: \<open>update_db\<close> and the entry point\<close>

definition create_sqlite_connection :: "(string \<Rightarrow> error + db) \<Rightarrow> string \<Rightarrow> db option \<times> event list" where
  "create_sqlite_connection connect db_file =
     (case connect db_file of
        Inr conn \<Rightarrow> (Some conn, [Print Opened_database_successfully])
      | Inl e \<Rightarrow> (None, [Print (Connect_error e)]))"

definition base_url :: string where
  "base_url = ''https://download.bls.gov/pub/time.series/cu/''"

definition area_codes :: string where
  "area_codes = ''cu.area''"

definition item_codes :: string where
  "item_codes = ''cu.item''"

definition period_codes :: string where
  "period_codes = ''cu.period''"

definition data_file :: string where
  "data_file = ''cu.data.0.Current''"

definition data_cols :: "string list" where
  "data_cols = [''id'', ''series_id'', ''prefix'', ''seasonal'', ''periodicity'', ''area_code'',
     ''item_code'', ''year'', ''period'', ''value'', ''footnote_codes'']"

definition update_db :: "libs \<Rightarrow> (string \<Rightarrow> error + db) \<Rightarrow> (string \<Rightarrow> error + string) \<Rightarrow> (string \<Rightarrow> string \<Rightarrow> error + frame) \<Rightarrow> string \<Rightarrow> db option \<times> event list" where
  "update_db lib connect net read_csv db_file =
     (case create_sqlite_connection connect db_file of
        (None, out0) \<Rightarrow> (None, out0)
      | (Some conn, out0) \<Rightarrow>
          (case insert_non_data_table net conn (base_url @ area_codes) Areas [CHR 0x09] of (c1, out1) \<Rightarrow>
          (case insert_non_data_table net c1 (base_url @ period_codes) Periods [CHR 0x09] of (c2, out2) \<Rightarrow>
          (case insert_non_data_table net c2 (base_url @ item_codes) Items [CHR 0x09] of (c3, out3) \<Rightarrow>
          (case insert_data_table lib net read_csv c3 (base_url @ data_file) data_cols [CHR 0x09] of (c4, out4) \<Rightarrow>
          (case create_view c4 of (c5, out5) \<Rightarrow>
             (Some c5, out0 @ out1 @ out2 @ out3 @ out4 @ out5)))))))"

text \<open>
  The names bound at module level in \<open>insert_tables.py\<close>: its four imports and its nine
  functions.
\<close>

definition module_globals :: "string list" where
  "module_globals = [''sqlite3'', ''urllib'', ''pd'', ''StringIO'', ''read_text_from_url'',
     ''text_to_df'', ''get_data_cols'', ''arrange_data_cols'', ''create_sqlite_connection'',
     ''insert_non_data_table'', ''insert_data_table'', ''create_view'', ''update_db'']"

text \<open>
  The statement \<open>update_db(os.environ['DATABASE_URL'])\<close> under \<open>__main__\<close>: the argument is
  evaluated first, and the name \<open>os\<close> is looked up in the module's globals (no builtin
  has that name).
\<close>

definition main_block :: "libs \<Rightarrow> (string \<Rightarrow> string option) \<Rightarrow> (string \<Rightarrow> error + db) \<Rightarrow> (string \<Rightarrow> error + string) \<Rightarrow> (string \<Rightarrow> string \<Rightarrow> error + frame) \<Rightarrow> error + db option \<times> event list" where
  "main_block lib environ connect net read_csv =
     (if ''os'' \<notin> set module_globals then Inl (NameError ''os'')
      else (case environ ''DATABASE_URL'' of
              None \<Rightarrow> Inl (KeyError ''DATABASE_URL'')
            | Some db_file \<Rightarrow> Inr (update_db lib connect net read_csv db_file)))"

text \<open>
  The states the loaders can reach from the empty tables of \<open>create_db.main\<close>, whatever
  the network, the parser and the libraries return.
\<close>

inductive reachable :: "db \<Rightarrow> bool" where
  init: "reachable init_db"
| dimension: "reachable conn \<Longrightarrow> reachable (fst (insert_non_data_table net conn url table_name separator))"
| fact: "reachable conn \<Longrightarrow> reachable (fst (insert_data_table lib net read_csv conn url cols separator))"

section \<open>Derived notions used in the properties\<close>

text \<open>
  The frame \<open>get_data_cols\<close> returns when \<open>data.index + 1\<close> is \<open>ids\<close> and the column
  \<open>series_id\<close> holds the strings \<open>xs\<close>: the six assignments of the source, in their
  order.
\<close>

definition decomposed :: "cell list \<Rightarrow> string list \<Rightarrow> frame \<Rightarrow> frame" where
  "decomposed ids xs df =
     set_col ''item_code'' (map (\<lambda>x. StrC (item_code_of x)) xs)
    (set_col ''area_code'' (map (\<lambda>x. StrC (area_code_of x)) xs)
    (set_col ''periodicity'' (map (\<lambda>x. StrC (periodicity_of x)) xs)
    (set_col ''seasonal'' (map (\<lambda>x. StrC (seasonal_of x)) xs)
    (set_col ''prefix'' (map (\<lambda>x. StrC (prefix_of x)) xs)
    (set_col ''id'' ids df)))))"

text \<open>
  The key of the \<open>UNIQUE\<close> constraint, as SQLite compares it, and the rows in which none
  of its values is \<open>NULL\<close>.
\<close>

definition triple :: "obs \<Rightarrow> cell \<times> cell \<times> cell" where
  "triple r = (key (series_id r), key (year r), key (period r))"

definition complete_triple :: "obs \<Rightarrow> bool" where
  "complete_triple r = (series_id r \<noteq> Null \<and> year r \<noteq> Null \<and> period r \<noteq> Null)"

text \<open>
  What the primary keys of the dimension tables guarantee: every stored row has the
  width of its table, and no key occurs twice.
\<close>

definition dims_ok :: "db \<Rightarrow> bool" where
  "dims_ok conn = list_all (\<lambda>t. distinct (map pk (get_table conn t)) \<and>
                               list_all (\<lambda>r. length r = table_arity t) (get_table conn t))
                     [Areas, Periods, Items]"

text \<open>
  What the constraints of the fact table guarantee: no row id occurs twice, and no
  triple without a \<open>NULL\<close> occurs twice.
\<close>

definition facts_ok :: "obs list \<Rightarrow> bool" where
  "facts_ok tbl = (distinct (map row_id tbl) \<and> distinct (map triple (filter complete_triple tbl)))"

section \<open>Example inputs\<close>

text \<open>
  A network on which the area file cannot be fetched, the period file has only its
  header line, the item file has rows of two fields, and the fact file is there.
\<close>

definition period_text :: string where
  "period_text = ''period'' @ [CHR 0x09] @ ''period_abbr'' @ [CHR 0x09] @ ''period_name'' @ [CHR 0x0A]"

definition item_text :: string where
  "item_text = ''item_code'' @ [CHR 0x09] @ ''item_name'' @ [CHR 0x0A] @
               ''SA0'' @ [CHR 0x09] @ ''All items'' @ [CHR 0x0A]"

definition data_text :: string where
  "data_text = ''series_id        '' @ [CHR 0x09] @ ''year'' @ [CHR 0x09] @ ''period'' @ [CHR 0x09] @
               ''       value'' @ [CHR 0x09] @ ''footnote_codes'' @ [CHR 0x0A] @
               ''CUSR0000SA0      '' @ [CHR 0x09] @ ''2020'' @ [CHR 0x09] @ ''M01'' @ [CHR 0x09] @
               ''     257.971'' @ [CHR 0x09] @ [CHR 0x0A]"

definition example_net :: "string \<Rightarrow> error + string" where
  "example_net url =
     (if url = base_url @ period_codes then Inr period_text
      else if url = base_url @ item_codes then Inr item_text
      else if url = base_url @ data_file then Inr data_text
      else Inl Fetch_failed)"

text \<open>
  A fact file of two rows that have no period, and one whose rows have one field more
  than the header, with the networks that serve them.
\<close>

definition no_period_text :: string where
  "no_period_text = ''series_id'' @ [CHR 0x09] @ ''year'' @ [CHR 0x09] @ ''period'' @ [CHR 0x09] @
               ''value'' @ [CHR 0x09] @ ''footnote_codes'' @ [CHR 0x0A] @
               ''CUSR0000SA0'' @ [CHR 0x09] @ ''2020'' @ [CHR 0x09] @ [CHR 0x09] @
               ''257.971'' @ [CHR 0x09] @ [CHR 0x0A] @
               ''CUSR0000SA0'' @ [CHR 0x09] @ ''2020'' @ [CHR 0x09] @ [CHR 0x09] @
               ''258.678'' @ [CHR 0x09] @ [CHR 0x0A]"

definition no_period_net :: "string \<Rightarrow> error + string" where
  "no_period_net url = (if url = base_url @ data_file then Inr no_period_text else Inl Fetch_failed)"

definition labelled_text :: string where
  "labelled_text = ''series_id'' @ [CHR 0x09] @ ''year'' @ [CHR 0x09] @ ''period'' @ [CHR 0x09] @
               ''value'' @ [CHR 0x09] @ ''footnote_codes'' @ [CHR 0x0A] @
               ''7'' @ [CHR 0x09] @ ''CUSR0000SA0'' @ [CHR 0x09] @ ''2020'' @ [CHR 0x09] @ ''M01'' @ [CHR 0x09] @
               ''257.971'' @ [CHR 0x09] @ [CHR 0x0A] @
               ''9'' @ [CHR 0x09] @ ''CUSR0000SA0'' @ [CHR 0x09] @ ''2020'' @ [CHR 0x09] @ ''M02'' @ [CHR 0x09] @
               ''258.678'' @ [CHR 0x09] @ [CHR 0x0A]"

definition labelled_net :: "string \<Rightarrow> error + string" where
  "labelled_net url = (if url = base_url @ data_file then Inr labelled_text else Inl Fetch_failed)"

text \<open>The frames \<open>pd.read_csv\<close> makes of the three fact files.\<close>

definition example_frame :: frame where
  "example_frame =
     \<lparr>index = RangeIndex 1,
      columns = [(''series_id        '', [StrC ''CUSR0000SA0      '']), (''year'', [IntC 2020]),
                 (''period'', [StrC ''M01'']), (''       value'', [FloatC 257.971]),
                 (''footnote_codes'', [Null])]\<rparr>"

definition no_period_frame :: frame where
  "no_period_frame =
     \<lparr>index = RangeIndex 2,
      columns = [(''series_id'', [StrC ''CUSR0000SA0'', StrC ''CUSR0000SA0'']),
                 (''year'', [IntC 2020, IntC 2020]), (''period'', [Null, Null]),
                 (''value'', [FloatC 257.971, FloatC 258.678]), (''footnote_codes'', [Null, Null])]\<rparr>"

definition labelled_frame :: frame where
  "labelled_frame =
     \<lparr>index = Labels [IntC 7, IntC 9],
      columns = [(''series_id'', [StrC ''CUSR0000SA0'', StrC ''CUSR0000SA0'']),
                 (''year'', [IntC 2020, IntC 2020]), (''period'', [StrC ''M01'', StrC ''M02'']),
                 (''value'', [FloatC 257.971, FloatC 258.678]), (''footnote_codes'', [Null, Null])]\<rparr>"

definition example_read_csv :: "string \<Rightarrow> string \<Rightarrow> error + frame" where
  "example_read_csv text separator =
     (if separator \<noteq> [CHR 0x09] then Inl Parse_failed
      else if text = data_text then Inr example_frame
      else if text = no_period_text then Inr no_period_frame
      else if text = labelled_text then Inr labelled_frame
      else Inl Parse_failed)"

text \<open>
  The example frames hold strings in the text columns, integers in \<open>year\<close> and floats in
  \<open>value\<close>, with integer labels, and the example tables are small: none of the operations
  of \<open>libs\<close> is applied to them, and the examples come out the same with any other
  choice than this one.
\<close>

definition example_libs :: libs where
  "example_libs =
     \<lparr>plus_one = (\<lambda>x. x + 1), numeric_of_text = (\<lambda>s. None), text_of_real = (\<lambda>x. []),
      real_of_integer = of_int, random_rowid = (\<lambda>ids. 1)\<rparr>"

text \<open>An area file of one well-formed row.\<close>

definition area_text :: string where
  "area_text = ''area_code'' @ [CHR 0x09] @ ''area_name'' @ [CHR 0x09] @ ''display_level'' @ [CHR 0x09] @
               ''selectable'' @ [CHR 0x09] @ ''sort_sequence'' @ [CHR 0x0A] @
               ''0000'' @ [CHR 0x09] @ ''U.S. city average'' @ [CHR 0x09] @ ''0'' @ [CHR 0x09] @
               ''T'' @ [CHR 0x09] @ ''1'' @ [CHR 0x0A]"

definition area_net :: "string \<Rightarrow> error + string" where
  "area_net url = Inr area_text"

text \<open>The database after that area file is loaded into the empty tables.\<close>

definition area_db :: db where
  "area_db = init_db\<lparr>areas := [[''0000'', ''U.S. city average'', ''0'', ''T'', ''1'']]\<rparr>"

text \<open>The database after the example fact file is loaded into the empty tables, once and twice.\<close>

definition example_db :: db where
  "example_db = fst (insert_data_table example_libs example_net example_read_csv init_db (base_url @ data_file) data_cols [CHR 0x09])"

definition reloaded_db :: db where
  "reloaded_db = fst (insert_data_table example_libs example_net example_read_csv example_db (base_url @ data_file) data_cols [CHR 0x09])"

text \<open>The databases after the two other fact files are loaded into the empty tables.\<close>

definition no_period_db :: db where
  "no_period_db = fst (insert_data_table example_libs no_period_net example_read_csv init_db (base_url @ data_file) data_cols [CHR 0x09])"

definition labelled_db :: db where
  "labelled_db = fst (insert_data_table example_libs labelled_net example_read_csv init_db (base_url @ data_file) data_cols [CHR 0x09])"

text \<open>The example frame with its column names stripped, as \<open>text_to_df\<close> returns it.\<close>

definition stripped_frame :: frame where
  "stripped_frame =
     \<lparr>index = RangeIndex 1,
      columns = [(''series_id'', [StrC ''CUSR0000SA0      '']), (''year'', [IntC 2020]),
                 (''period'', [StrC ''M01'']), (''value'', [FloatC 257.971]),
                 (''footnote_codes'', [Null])]\<rparr>"

section \<open>The series decomposer\<close>

lemma map_of_replace:
  "map_of (map (\<lambda>p. if fst p = name then (name, col) else p) ps) k
     = (if k = name \<and> list_ex (\<lambda>p. fst p = name) ps then Some col else map_of ps k)"
  by (induction ps) auto

lemma map_of_append_new:
  "\<not> list_ex (\<lambda>p. fst p = name) ps \<Longrightarrow> map_of (ps @ [(name, col)]) k = (if k = name then Some col else map_of ps k)"
  by (induction ps) auto

lemma map_of_set_col_list: "map_of (set_col_list name col ps) = (map_of ps)(name \<mapsto> col)"
  by (cases "list_ex (\<lambda>p. fst p = name) ps")
    (simp_all add: set_col_list_def fun_eq_iff map_of_replace map_of_append_new del: map_of_append)

lemma filter_replace:
  "name \<noteq> n \<Longrightarrow> filter (\<lambda>p. fst p = n) (map (\<lambda>p. if fst p = name then (name, col) else p) ps)
     = filter (\<lambda>p. fst p = n) ps"
  by (induction ps) auto

lemma count_cols_set_col:
  "name \<noteq> n \<Longrightarrow> count_cols (set_col name col df) n = count_cols df n"
  by (simp add: count_cols_def set_col_def set_col_list_def filter_replace)

lemma names_replace:
  "map fst (map (\<lambda>p. if fst p = name then (name, col) else p) ps) = map fst ps"
  by (induction ps) auto

lemma names_set_col_list:
  "map fst (set_col_list name col ps)
     = (if list_ex (\<lambda>p. fst p = name) ps then map fst ps else map fst ps @ [name])"
  by (simp add: set_col_list_def names_replace [unfolded map_map])

lemma distinct_set_col:
  "distinct (map fst (columns df)) \<Longrightarrow> distinct (map fst (columns (set_col name col df)))"
  by (auto simp: set_col_def names_set_col_list list_ex_iff)

lemma distinct_count_cols:
  assumes "distinct (map fst (columns df))"
  shows "count_cols df n \<le> 1"
proof -
  have "length (filter (\<lambda>p. fst p = n) ps) \<le> 1" if "distinct (map fst ps)" for ps :: "(string \<times> cell list) list"
    using that by (induction ps) (auto simp: filter_empty_conv image_iff)
  from this [OF assms] show ?thesis by (simp add: count_cols_def)
qed

lemma get_col_set_col:
  "get_col (set_col name col df) name' = (if name' = name then Inr col else get_col df name')"
  by (simp add: get_col_def set_col_def map_of_set_col_list)

lemma nrows_set_col [simp]: "nrows (set_col name col df) = nrows df"
  by (simp add: set_col_def nrows_def)

lemma apply_str_strings: "apply_str f (map StrC xs) = Inr (map (\<lambda>x. StrC (f x)) xs)"
  by (induction xs) auto

lemma apply_str_Inr: "apply_str f cs = Inr r \<Longrightarrow> \<exists>xs. cs = map StrC xs"
proof (induction cs arbitrary: r)
  case Nil
  then show ?case by simp
next
  case (Cons c cs)
  then obtain s where c: "c = StrC s" by (cases c) auto
  with Cons.prems obtain r' where "apply_str f cs = Inr r'"
    by (auto split: sum.splits)
  then obtain xs where "cs = map StrC xs" using Cons.IH by blast
  with c have "c # cs = map StrC (s # xs)" by simp
  then show ?case by (rule exI)
qed

lemma derive_col_strings:
  "get_col df ''series_id'' = Inr (map StrC xs) \<Longrightarrow> count_cols df ''series_id'' \<le> 1 \<Longrightarrow>
   derive_col name f df = Inr (set_col name (map (\<lambda>x. StrC (f x)) xs) df)"
  by (simp add: derive_col_def and_then_def apply_str_strings)

lemma derive_col_Inr:
  "derive_col name f df = Inr df' \<Longrightarrow>
   count_cols df ''series_id'' \<le> 1 \<and> (\<exists>xs. get_col df ''series_id'' = Inr (map StrC xs))"
  by (auto simp: derive_col_def and_then_def split: sum.splits if_splits dest: apply_str_Inr)

lemma get_data_cols_strings:
  assumes "index_plus_one lib (index df) = Inr ids"
    and "get_col df ''series_id'' = Inr (map StrC xs)"
    and "count_cols df ''series_id'' \<le> 1"
  shows "get_data_cols lib df = Inr (decomposed ids xs df)"
  using assms
  by (simp add: get_data_cols_def decomposed_def and_then_def derive_col_strings get_col_set_col
      count_cols_set_col)

lemma get_data_cols_Inr:
  assumes "get_data_cols lib df = Inr df'"
  shows "\<exists>ids xs. index_plus_one lib (index df) = Inr ids \<and>
           get_col df ''series_id'' = Inr (map StrC xs) \<and> df' = decomposed ids xs df"
proof -
  from assms obtain ids where ids: "index_plus_one lib (index df) = Inr ids"
    by (auto simp: get_data_cols_def and_then_def split: sum.splits)
  with assms obtain d1 where "derive_col ''prefix'' prefix_of (set_col ''id'' ids df) = Inr d1"
    by (auto simp: get_data_cols_def and_then_def split: sum.splits)
  then obtain xs where "get_col (set_col ''id'' ids df) ''series_id'' = Inr (map StrC xs)"
    and "count_cols (set_col ''id'' ids df) ''series_id'' \<le> 1"
    using derive_col_Inr by blast
  then have g: "get_col df ''series_id'' = Inr (map StrC xs)"
    and c: "count_cols df ''series_id'' \<le> 1"
    by (simp_all add: get_col_set_col count_cols_set_col)
  with assms get_data_cols_strings [OF ids g c] ids show ?thesis by auto
qed

text \<open>
  Claim C1. When \<open>get_data_cols\<close> succeeds on a frame, every row whose \<open>series_id\<close> is a
  string \<open>x\<close> of at least 8 characters gets a prefix of length 2, a seasonal field of
  length 1, a periodicity field of length 1, an area code of length 4 and, as item code,
  the rest of \<open>x\<close> stripped; the first four fields concatenated are the first 8
  characters of \<open>x\<close>.
\<close>

theorem get_data_cols_decomposes:
  assumes "get_data_cols lib df = Inr df'"
    and "get_col df ''series_id'' = Inr sid"
    and "i < length sid"
    and "sid ! i = StrC x"
    and "8 \<le> length x"
  shows "\<exists>P S Q A C p s q a c.
           get_col df' ''prefix'' = Inr P \<and> P ! i = StrC p \<and>
           get_col df' ''seasonal'' = Inr S \<and> S ! i = StrC s \<and>
           get_col df' ''periodicity'' = Inr Q \<and> Q ! i = StrC q \<and>
           get_col df' ''area_code'' = Inr A \<and> A ! i = StrC a \<and>
           get_col df' ''item_code'' = Inr C \<and> C ! i = StrC c \<and>
           length p = 2 \<and> length s = 1 \<and> length q = 1 \<and> length a = 4 \<and>
           c = py_strip (drop 8 x) \<and> p @ s @ q @ a = take 8 x"
proof -
  from assms(1) obtain ids xs where g: "get_col df ''series_id'' = Inr (map StrC xs)"
    and d: "df' = decomposed ids xs df"
    using get_data_cols_Inr by blast
  from g assms(2) have sid: "sid = map StrC xs" by simp
  with assms(3,4) have x: "xs ! i = x" and i: "i < length xs" by auto
  have cat: "prefix_of x @ seasonal_of x @ periodicity_of x @ area_code_of x = take 8 x"
  proof -
    have "take 2 x @ take 1 (drop 2 x) @ take 1 (drop 3 x) @ take 4 (drop 4 x) = take 8 x"
      by (simp add: take_add [symmetric] flip: take_drop append_assoc) 
    then show ?thesis
      by (simp add: prefix_of_def seasonal_of_def periodicity_of_def area_code_of_def slice_def)
  qed
  have len: "length (prefix_of x) = 2" "length (seasonal_of x) = 1"
    "length (periodicity_of x) = 1" "length (area_code_of x) = 4"
    using assms(5)
    by (simp_all add: prefix_of_def seasonal_of_def periodicity_of_def area_code_of_def slice_def)
  have ic: "item_code_of x = py_strip (drop 8 x)"
    by (simp add: item_code_of_def slice_from_def)
  show ?thesis
    using i x cat len ic
    by (simp add: d decomposed_def get_col_set_col)
qed

theorem get_data_cols_decomposes_witness:
  "get_data_cols example_libs stripped_frame = Inr (decomposed [IntC 1] [''CUSR0000SA0      ''] stripped_frame)
   \<and> get_col stripped_frame ''series_id'' = Inr [StrC ''CUSR0000SA0      '']
   \<and> (0::nat) < length [StrC ''CUSR0000SA0      '']
   \<and> [StrC ''CUSR0000SA0      ''] ! 0 = StrC ''CUSR0000SA0      ''
   \<and> 8 \<le> length ''CUSR0000SA0      ''
   \<and> (\<exists>P S Q A C p s q a c.
           get_col (decomposed [IntC 1] [''CUSR0000SA0      ''] stripped_frame) ''prefix'' = Inr P \<and> P ! 0 = StrC p \<and>
           get_col (decomposed [IntC 1] [''CUSR0000SA0      ''] stripped_frame) ''seasonal'' = Inr S \<and> S ! 0 = StrC s \<and>
           get_col (decomposed [IntC 1] [''CUSR0000SA0      ''] stripped_frame) ''periodicity'' = Inr Q \<and> Q ! 0 = StrC q \<and>
           get_col (decomposed [IntC 1] [''CUSR0000SA0      ''] stripped_frame) ''area_code'' = Inr A \<and> A ! 0 = StrC a \<and>
           get_col (decomposed [IntC 1] [''CUSR0000SA0      ''] stripped_frame) ''item_code'' = Inr C \<and> C ! 0 = StrC c \<and>
           length p = 2 \<and> length s = 1 \<and> length q = 1 \<and> length a = 4 \<and>
           c = py_strip (drop 8 ''CUSR0000SA0      '') \<and> p @ s @ q @ a = take 8 ''CUSR0000SA0      '')"
proof -
  have g: "get_col stripped_frame ''series_id'' = Inr [StrC ''CUSR0000SA0      '']"
    by (simp add: get_col_def stripped_frame_def)
  have x1: "index_plus_one example_libs (index stripped_frame) = Inr [IntC 1]"
    by (simp add: index_plus_one_def stripped_frame_def)
  have c1: "count_cols stripped_frame ''series_id'' \<le> 1"
    by (simp add: count_cols_def stripped_frame_def)
  have d: "get_data_cols example_libs stripped_frame = Inr (decomposed [IntC 1] [''CUSR0000SA0      ''] stripped_frame)"
    using get_data_cols_strings [OF x1 _ c1, of "[''CUSR0000SA0      '']"] g by simp
  have i: "(0::nat) < length [StrC ''CUSR0000SA0      '']" by simp
  have x: "[StrC ''CUSR0000SA0      ''] ! 0 = StrC ''CUSR0000SA0      ''" by simp
  have l: "8 \<le> length ''CUSR0000SA0      ''" by simp
  from get_data_cols_decomposes [OF d g i x l] d g i x l show ?thesis by blast
qed

lemma rev_dropWhile_takeWhile:
  "rev (dropWhile P (rev m)) @ rev (takeWhile P (rev m)) = m"
proof -
  have "rev (takeWhile P (rev m) @ dropWhile P (rev m)) = m" by simp
  then show ?thesis by (simp only: rev_append)
qed

lemma py_strip_decomposition:
  "\<exists>l r. s = l @ py_strip s @ r \<and> list_all py_isspace l \<and> list_all py_isspace r"
proof -
  define l where "l = takeWhile py_isspace s"
  define m where "m = dropWhile py_isspace s"
  define r where "r = rev (takeWhile py_isspace (rev m))"
  have s: "s = l @ m" by (simp add: l_def m_def)
  have m: "m = py_strip s @ r"
    by (simp add: py_strip_def py_rstrip_def py_lstrip_def r_def m_def rev_dropWhile_takeWhile)
  have "list_all py_isspace l"
    by (simp add: l_def list_all_iff) (meson set_takeWhileD)
  moreover have "list_all py_isspace r"
    by (simp add: r_def list_all_iff) (meson set_takeWhileD)
  ultimately have "s = l @ py_strip s @ r \<and> list_all py_isspace l \<and> list_all py_isspace r"
    using s m by simp
  then show ?thesis by blast
qed

lemma py_strip_ends:
  assumes "py_strip s \<noteq> []"
  shows "\<not> py_isspace (hd (py_strip s))" and "\<not> py_isspace (last (py_strip s))"
proof -
  define m where "m = dropWhile py_isspace s"
  have st: "py_strip s = rev (dropWhile py_isspace (rev m))"
    by (simp add: py_strip_def py_rstrip_def py_lstrip_def m_def)
  with assms have ne: "dropWhile py_isspace (rev m) \<noteq> []" by simp
  then have "\<not> py_isspace (hd (dropWhile py_isspace (rev m)))" by (rule hd_dropWhile)
  then show "\<not> py_isspace (last (py_strip s))"
    using ne by (simp add: st last_rev)
  from ne have mne: "m \<noteq> []" by auto
  then have hm: "\<not> py_isspace (hd m)" unfolding m_def by (rule hd_dropWhile)
  have "m = py_strip s @ rev (takeWhile py_isspace (rev m))"
    by (simp add: st rev_dropWhile_takeWhile)
  then have "hd m = hd (py_strip s)" using assms by (metis hd_append2)
  with hm show "\<not> py_isspace (hd (py_strip s))" by simp
qed

text \<open>
  Claim C5, as the code has it. The item code is the rest of \<open>series_id\<close> from index 8
  on with the whitespace removed at both ends: what is cut off on the left and on the
  right is whitespace only, and a non-empty item code neither starts nor ends with a
  whitespace character.
\<close>

theorem item_code_strips_both_ends:
  "\<exists>l r. slice_from 8 x = l @ item_code_of x @ r \<and> list_all py_isspace l \<and> list_all py_isspace r
         \<and> (item_code_of x \<noteq> [] \<longrightarrow> \<not> py_isspace (hd (item_code_of x)) \<and> \<not> py_isspace (last (item_code_of x)))"
proof -
  obtain l r where "slice_from 8 x = l @ py_strip (slice_from 8 x) @ r" "list_all py_isspace l" "list_all py_isspace r"
    using py_strip_decomposition by blast
  then show ?thesis
    using py_strip_ends [of "slice_from 8 x"]
    unfolding item_code_of_def by blast
qed

theorem item_code_strips_both_ends_witness:
  "item_code_of ''CUSR0000 SA0 '' \<noteq> []
   \<and> (\<exists>l r. slice_from 8 ''CUSR0000 SA0 '' = l @ item_code_of ''CUSR0000 SA0 '' @ r
          \<and> list_all py_isspace l \<and> list_all py_isspace r)
   \<and> \<not> py_isspace (hd (item_code_of ''CUSR0000 SA0 ''))
   \<and> \<not> py_isspace (last (item_code_of ''CUSR0000 SA0 ''))"
proof -
  have n: "item_code_of ''CUSR0000 SA0 '' \<noteq> []"
    by (simp add: item_code_of_def slice_from_def py_strip_def py_lstrip_def py_rstrip_def py_isspace_def)
  from item_code_strips_both_ends [of "''CUSR0000 SA0 ''"] n show ?thesis by blast
qed

text \<open>
  Claim C5 as stated fails: leading whitespace of the rest is not kept. For the series
  id \<open>CUSR0000 SA0\<close> the rest with only its trailing whitespace removed starts with a
  blank, the item code does not.
\<close>

theorem item_code_keeps_leading_space_counterexample:
  "item_code_of ''CUSR0000 SA0'' \<noteq> py_rstrip (slice_from 8 ''CUSR0000 SA0'')"
  by code_simp

section \<open>The loader of the dimension tables\<close>

lemma split_from_absent: "c \<notin> set s \<Longrightarrow> split_from [c] acc s = [rev acc @ s]"
  by (induction s arbitrary: acc) auto

lemma split_rows_header_only:
  "CHR 0x0A \<notin> set (py_strip text) \<Longrightarrow> split_rows text separator = Inr []"
  by (simp add: split_rows_def split_from_absent)


lemma executemany_or_ignore_Inl:
  "executemany_or_ignore n (tbl, k) rows = Inl e \<Longrightarrow> e = ProgrammingError \<and> list_ex (\<lambda>r. length r \<noteq> n) rows"
  by (induction rows arbitrary: tbl k) (auto split: if_splits)

lemma executemany_or_ignore_Inr:
  "executemany_or_ignore n (tbl, k) rows = Inr (tbl', k') \<Longrightarrow>
     list_all (\<lambda>r. length r = n) rows \<and>
     (\<exists>added. tbl' = tbl @ added \<and> set added \<subseteq> set rows \<and> k' = k + length added) \<and>
     set (map pk rows) \<subseteq> set (map pk tbl')"
proof (induction rows arbitrary: tbl k)
  case Nil
  then show ?case by simp
next
  case (Cons r rs)
  show ?case
  proof (cases "pk r \<in> set (map pk tbl)")
    case True
    with Cons.prems have len: "length r = n" and rec: "executemany_or_ignore n (tbl, k) rs = Inr (tbl', k')"
      by (auto split: if_splits)
    from Cons.IH [OF rec] True len show ?thesis by auto
  next
    case False
    with Cons.prems have len: "length r = n" and rec: "executemany_or_ignore n (tbl @ [r], Suc k) rs = Inr (tbl', k')"
      by (auto split: if_splits)
    from Cons.IH [OF rec] obtain added where a: "tbl' = (tbl @ [r]) @ added" "set added \<subseteq> set rs" "k' = Suc k + length added"
      and rest: "list_all (\<lambda>r. length r = n) rs" "set (map pk rs) \<subseteq> set (map pk tbl')"
      by blast
    from a have "tbl' = tbl @ (r # added) \<and> set (r # added) \<subseteq> set (r # rs) \<and> k' = k + length (r # added)"
      by auto
    then have "\<exists>added. tbl' = tbl @ added \<and> set added \<subseteq> set (r # rs) \<and> k' = k + length added"
      by (rule exI)
    moreover have "pk r \<in> set (map pk tbl')" using a(1) by simp
    ultimately show ?thesis using len rest by simp
  qed
qed

lemma executemany_or_ignore_present:
  "list_all (\<lambda>r. length r = n) rows \<Longrightarrow> set (map pk rows) \<subseteq> set (map pk tbl) \<Longrightarrow>
   executemany_or_ignore n (tbl, k) rows = Inr (tbl, k)"
  by (induction rows) auto

lemma executemany_or_ignore_distinct:
  "executemany_or_ignore n (tbl, k) rows = Inr (tbl', k') \<Longrightarrow> distinct (map pk tbl) \<Longrightarrow> distinct (map pk tbl')"
  by (induction rows arbitrary: tbl k) (auto split: if_splits)

lemma set_get_table [simp]: "get_table (set_table conn t tbl) t = tbl"
  by (cases t) auto

lemma set_table_same [simp]: "set_table conn t (get_table conn t) = conn"
  by (cases t) auto

lemma set_table_twice [simp]: "set_table (set_table conn t tbl) t tbl' = set_table conn t tbl'"
  by (cases t) auto

lemma data_set_table [simp]: "data (set_table conn t tbl) = data conn"
  by (cases t) auto

lemma get_table_other: "t' \<noteq> t \<Longrightarrow> get_table (set_table conn t tbl) t' = get_table conn t'"
  by (cases t; cases t') auto

lemma bulk_insert_again:
  assumes "bulk_insert conn t rows = Inr (conn', k)"
  shows "bulk_insert conn' t rows = Inr (conn', 0)"
proof -
  from assms obtain r0 rs where rows: "rows = r0 # rs" and ar: "length r0 = table_arity t"
    by (auto simp: bulk_insert_def split: list.splits if_splits)
  from assms rows ar obtain tbl' where ex: "executemany_or_ignore (length r0) (get_table conn t, 0) rows = Inr (tbl', k)"
    and c': "conn' = set_table conn t tbl'"
    by (auto simp: bulk_insert_def and_then_def split: sum.splits)
  from executemany_or_ignore_Inr [OF ex]
  have "list_all (\<lambda>r. length r = length r0) rows" "set (map pk rows) \<subseteq> set (map pk tbl')"
    by auto
  then have "executemany_or_ignore (length r0) (tbl', 0) rows = Inr (tbl', 0)"
    by (rule executemany_or_ignore_present)
  then show ?thesis
    using rows ar c' by (simp add: bulk_insert_def and_then_def)
qed

lemma insert_non_data_table_fetched:
  "net url = Inr text \<Longrightarrow> text \<noteq> [] \<Longrightarrow>
   insert_non_data_table net conn url t sep =
     (case and_then (split_rows text sep) (bulk_insert conn t) of
        Inl e \<Rightarrow> (conn, [Urlopen url, Print (Error_line e)])
      | Inr (conn', k) \<Rightarrow> (conn', [Urlopen url, Print (Inserted_records k)]))"
  by (simp add: insert_non_data_table_def read_text_from_url_def split: sum.splits prod.splits)

lemma insert_non_data_table_unfetched:
  "net url = Inl e \<Longrightarrow>
   insert_non_data_table net conn url t sep =
     (conn, [Urlopen url, Print (Error_line e), Print Unable_to_read_the_text_file])"
  by (simp add: insert_non_data_table_def read_text_from_url_def)

lemma insert_non_data_table_empty:
  "net url = Inr [] \<Longrightarrow>
   insert_non_data_table net conn url t sep = (conn, [Urlopen url, Print Unable_to_read_the_text_file])"
  by (simp add: insert_non_data_table_def read_text_from_url_def)



text \<open>
  Claim C10. A fetched text that has only a header line (no newline is left once the
  text is stripped) makes \<open>rows[0]\<close> raise \<open>IndexError\<close>; the exception is caught and
  printed, nothing is inserted and the database is as it was.
\<close>

theorem header_only_is_caught:
  assumes "net url = Inr text" and "text \<noteq> []" and "CHR 0x0A \<notin> set (py_strip text)"
  shows "insert_non_data_table net conn url t sep = (conn, [Urlopen url, Print (Error_line IndexError)])"
  using assms
  by (simp add: insert_non_data_table_fetched split_rows_header_only and_then_def bulk_insert_def)

theorem header_only_is_caught_witness:
  "example_net (base_url @ period_codes) = Inr period_text
   \<and> period_text \<noteq> []
   \<and> CHR 0x0A \<notin> set (py_strip period_text)
   \<and> insert_non_data_table example_net init_db (base_url @ period_codes) Periods [CHR 0x09]
       = (init_db, [Urlopen (base_url @ period_codes), Print (Error_line IndexError)])"
proof -
  have f: "example_net (base_url @ period_codes) = Inr period_text"
    by (simp add: example_net_def)
  have n: "period_text \<noteq> []"
    by (simp add: period_text_def)
  have h: "CHR 0x0A \<notin> set (py_strip period_text)"
    by (simp add: period_text_def py_strip_def py_lstrip_def py_rstrip_def py_isspace_def)
  from header_only_is_caught [where net = example_net and url = "base_url @ period_codes", OF f n h, of init_db Periods "[CHR 0x09]"] f n h
  show ?thesis by blast
qed



lemma area_load_example:
  "insert_non_data_table area_net init_db (base_url @ area_codes) Areas [CHR 0x09]
     = (area_db, [Urlopen (base_url @ area_codes), Print (Inserted_records 1)])"
  by code_simp

text \<open>
  Claim C4, as the code has it. Loading the same dimension text a second time, from any
  starting state, leaves the database (hence the row count of the target table) as the
  first load left it and duplicates no row. Where the first load printed an insert
  count the second does not fail and prints the count 0; where the first load failed,
  the second fails in the same way, with the same output.
\<close>

theorem second_load_changes_nothing:
  "fst (insert_non_data_table net (fst (insert_non_data_table net conn url t sep)) url t sep)
     = fst (insert_non_data_table net conn url t sep)
   \<and> length (get_table (fst (insert_non_data_table net (fst (insert_non_data_table net conn url t sep)) url t sep)) t)
     = length (get_table (fst (insert_non_data_table net conn url t sep)) t)
   \<and> snd (insert_non_data_table net (fst (insert_non_data_table net conn url t sep)) url t sep)
     = (if \<exists>k. snd (insert_non_data_table net conn url t sep) = [Urlopen url, Print (Inserted_records k)]
        then [Urlopen url, Print (Inserted_records 0)]
        else snd (insert_non_data_table net conn url t sep))"
proof (cases "net url")
  case (Inl e)
  then show ?thesis by (simp add: insert_non_data_table_unfetched)
next
  case (Inr content)
  show ?thesis
  proof (cases "content = []")
    case True
    with Inr show ?thesis by (simp add: insert_non_data_table_empty)
  next
    case False
    have f: "\<And>c. insert_non_data_table net c url t sep =
     (case and_then (split_rows content sep) (bulk_insert c t) of
        Inl e \<Rightarrow> (c, [Urlopen url, Print (Error_line e)])
      | Inr (conn', k) \<Rightarrow> (conn', [Urlopen url, Print (Inserted_records k)]))"
      using Inr False by (rule insert_non_data_table_fetched)
    show ?thesis
    proof (cases "split_rows content sep")
      case (Inl e)
      then show ?thesis by (simp add: f and_then_def)
    next
      case rows: (Inr rows)
      show ?thesis
      proof (cases "bulk_insert conn t rows")
        case (Inl e)
        then show ?thesis using rows by (simp add: f and_then_def)
      next
        case (Inr p)
        obtain conn' k where p: "p = (conn', k)" by (cases p)
        from Inr p have "bulk_insert conn' t rows = Inr (conn', 0)"
          using bulk_insert_again by simp
        then show ?thesis using rows Inr p by (simp add: f and_then_def)
      qed
    qed
  qed
qed

theorem second_load_changes_nothing_witness:
  "insert_non_data_table area_net init_db (base_url @ area_codes) Areas [CHR 0x09]
     = (area_db, [Urlopen (base_url @ area_codes), Print (Inserted_records 1)])
   \<and> insert_non_data_table area_net area_db (base_url @ area_codes) Areas [CHR 0x09]
     = (area_db, [Urlopen (base_url @ area_codes), Print (Inserted_records 0)])
   \<and> length (get_table area_db Areas) = 1"
proof -
  note first = area_load_example
  from second_load_changes_nothing [of area_net init_db "base_url @ area_codes" Areas "[CHR 0x09]"]
  have "fst (insert_non_data_table area_net area_db (base_url @ area_codes) Areas [CHR 0x09]) = area_db"
    and "snd (insert_non_data_table area_net area_db (base_url @ area_codes) Areas [CHR 0x09])
          = [Urlopen (base_url @ area_codes), Print (Inserted_records 0)]"
    by (simp_all add: first)
  then have "insert_non_data_table area_net area_db (base_url @ area_codes) Areas [CHR 0x09]
     = (area_db, [Urlopen (base_url @ area_codes), Print (Inserted_records 0)])"
    by (simp add: prod_eq_iff)
  moreover have "length (get_table area_db Areas) = 1" by (simp add: area_db_def)
  ultimately show ?thesis using first by simp
qed

text \<open>
  Claim C4 as stated fails: the second load does fail when the first one did. On a
  period file that has only its header line both loads end in \<open>IndexError\<close>.
\<close>

theorem second_load_fails_again_counterexample:
  "insert_non_data_table example_net init_db (base_url @ period_codes) Periods [CHR 0x09]
     = (init_db, [Urlopen (base_url @ period_codes), Print (Error_line IndexError)])
   \<and> insert_non_data_table example_net
         (fst (insert_non_data_table example_net init_db (base_url @ period_codes) Periods [CHR 0x09]))
         (base_url @ period_codes) Periods [CHR 0x09]
     = (init_db, [Urlopen (base_url @ period_codes), Print (Error_line IndexError)])"
  by code_simp

section \<open>The orchestration\<close>

lemma insert_data_table_opens_url:
  "\<exists>rest. snd (insert_data_table lib net read_csv conn url cols sep) = Urlopen url # rest"
  by (auto simp: insert_data_table_def read_text_from_url_def split: sum.splits prod.splits option.splits)

lemma update_db_connected:
  assumes "connect db_file = Inr conn"
  shows "update_db lib connect net read_csv db_file =
     (let r1 = insert_non_data_table net conn (base_url @ area_codes) Areas [CHR 0x09];
          r2 = insert_non_data_table net (fst r1) (base_url @ period_codes) Periods [CHR 0x09];
          r3 = insert_non_data_table net (fst r2) (base_url @ item_codes) Items [CHR 0x09];
          r4 = insert_data_table lib net read_csv (fst r3) (base_url @ data_file) data_cols [CHR 0x09]
      in (Some (fst r4),
          [Print Opened_database_successfully] @ snd r1 @ snd r2 @ snd r3 @ snd r4
            @ [Print (Created_view (length (data_view (fst r4))))]))"
  using assms
  by (simp add: update_db_def create_sqlite_connection_def create_view_def Let_def split_beta)

text \<open>
  Claim C7. When the fetch of one of the three dimension files fails during \<open>update_db\<close>,
  the failure is printed by that load, the run goes on, and the load of the fact table
  runs on the state the three dimension loads left: it opens the URL of the fact file, its
  output is part of the output of the run, and the run returns the state it produced.
\<close>

theorem fact_load_runs_after_failed_dimension_fetch:
  assumes "connect db_file = Inr conn"
    and "u \<in> {base_url @ area_codes, base_url @ period_codes, base_url @ item_codes}"
    and "net u = Inl e"
  shows "let c1 = fst (insert_non_data_table net conn (base_url @ area_codes) Areas [CHR 0x09]);
             c2 = fst (insert_non_data_table net c1 (base_url @ period_codes) Periods [CHR 0x09]);
             c3 = fst (insert_non_data_table net c2 (base_url @ item_codes) Items [CHR 0x09]);
             r = insert_data_table lib net read_csv c3 (base_url @ data_file) data_cols [CHR 0x09]
         in \<exists>pre post rest.
              update_db lib connect net read_csv db_file =
                (Some (fst r),
                 pre @ [Urlopen u, Print (Error_line e), Print Unable_to_read_the_text_file] @ post
                   @ snd r @ [Print (Created_view (length (data_view (fst r))))])
              \<and> snd r = Urlopen (base_url @ data_file) # rest"
proof -
  define c1 where "c1 = fst (insert_non_data_table net conn (base_url @ area_codes) Areas [CHR 0x09])"
  define c2 where "c2 = fst (insert_non_data_table net c1 (base_url @ period_codes) Periods [CHR 0x09])"
  define c3 where "c3 = fst (insert_non_data_table net c2 (base_url @ item_codes) Items [CHR 0x09])"
  define r where "r = insert_data_table lib net read_csv c3 (base_url @ data_file) data_cols [CHR 0x09]"
  define o1 where "o1 = snd (insert_non_data_table net conn (base_url @ area_codes) Areas [CHR 0x09])"
  define o2 where "o2 = snd (insert_non_data_table net c1 (base_url @ period_codes) Periods [CHR 0x09])"
  define o3 where "o3 = snd (insert_non_data_table net c2 (base_url @ item_codes) Items [CHR 0x09])"
  define bad where "bad = [Urlopen u, Print (Error_line e), Print Unable_to_read_the_text_file]"
  define tail where "tail = snd r @ [Print (Created_view (length (data_view (fst r))))]"
  have run: "update_db lib connect net read_csv db_file =
      (Some (fst r), [Print Opened_database_successfully] @ o1 @ o2 @ o3 @ tail)"
    using assms(1)
    by (simp add: update_db_connected [where connect = connect and db_file = db_file] Let_def c1_def c2_def c3_def r_def o1_def o2_def o3_def tail_def)
  obtain rest where rest: "snd r = Urlopen (base_url @ data_file) # rest"
    unfolding r_def using insert_data_table_opens_url by blast
  from assms(2) consider "u = base_url @ area_codes" | "u = base_url @ period_codes" | "u = base_url @ item_codes"
    by auto
  then have "\<exists>pre post. [Print Opened_database_successfully] @ o1 @ o2 @ o3 = pre @ bad @ post"
  proof cases
    case 1
    with assms(3) have "o1 = bad"
      by (simp add: o1_def bad_def insert_non_data_table_unfetched)
    then have "[Print Opened_database_successfully] @ o1 @ o2 @ o3 = [Print Opened_database_successfully] @ bad @ (o2 @ o3)"
      by simp
    then show ?thesis by blast
  next
    case 2
    with assms(3) have "o2 = bad"
      by (simp add: o2_def bad_def insert_non_data_table_unfetched)
    then have "[Print Opened_database_successfully] @ o1 @ o2 @ o3 = ([Print Opened_database_successfully] @ o1) @ bad @ o3"
      by simp
    then show ?thesis by blast
  next
    case 3
    with assms(3) have "o3 = bad"
      by (simp add: o3_def bad_def insert_non_data_table_unfetched)
    then have "[Print Opened_database_successfully] @ o1 @ o2 @ o3 = ([Print Opened_database_successfully] @ o1 @ o2) @ bad @ []"
      by simp
    then show ?thesis by blast
  qed
  then obtain pre post where "[Print Opened_database_successfully] @ o1 @ o2 @ o3 = pre @ bad @ post"
    by blast
  then have "[Print Opened_database_successfully] @ o1 @ o2 @ o3 @ tail = pre @ bad @ post @ tail"
    by (metis append_assoc)
  with run rest show ?thesis
    unfolding Let_def c1_def [symmetric] c2_def [symmetric] c3_def [symmetric] r_def [symmetric]
    by (auto simp: bad_def tail_def)
qed

theorem fact_load_runs_after_failed_dimension_fetch_witness:
  "(\<lambda>db_file. Inr init_db :: error + db) ''cpi-u.db'' = Inr init_db
   \<and> base_url @ area_codes \<in> {base_url @ area_codes, base_url @ period_codes, base_url @ item_codes}
   \<and> example_net (base_url @ area_codes) = Inl Fetch_failed
   \<and> (let c1 = fst (insert_non_data_table example_net init_db (base_url @ area_codes) Areas [CHR 0x09]);
             c2 = fst (insert_non_data_table example_net c1 (base_url @ period_codes) Periods [CHR 0x09]);
             c3 = fst (insert_non_data_table example_net c2 (base_url @ item_codes) Items [CHR 0x09]);
             r = insert_data_table example_libs example_net example_read_csv c3 (base_url @ data_file) data_cols [CHR 0x09]
         in \<exists>pre post rest.
              update_db example_libs (\<lambda>db_file. Inr init_db) example_net example_read_csv ''cpi-u.db'' =
                (Some (fst r),
                 pre @ [Urlopen (base_url @ area_codes), Print (Error_line Fetch_failed), Print Unable_to_read_the_text_file] @ post
                   @ snd r @ [Print (Created_view (length (data_view (fst r))))])
              \<and> snd r = Urlopen (base_url @ data_file) # rest)"
proof -
  have c: "(\<lambda>db_file. Inr init_db :: error + db) ''cpi-u.db'' = Inr init_db" by simp
  have u: "base_url @ area_codes \<in> {base_url @ area_codes, base_url @ period_codes, base_url @ item_codes}"
    by simp
  have f: "example_net (base_url @ area_codes) = Inl Fetch_failed"
    by (simp add: example_net_def base_url_def item_codes_def period_codes_def area_codes_def data_file_def)
  from fact_load_runs_after_failed_dimension_fetch [where connect = "\<lambda>db_file. Inr init_db" and db_file = "''cpi-u.db''"
      and net = example_net and u = "base_url @ area_codes" and read_csv = example_read_csv
      and lib = example_libs, OF c u f] c u f
  show ?thesis by blast
qed

text \<open>
  Claim C8. The entry point of \<open>insert_tables.py\<close> raises \<open>NameError\<close> for the name \<open>os\<close>
  in every environment, whatever \<open>DATABASE_URL\<close> is set to: \<open>update_db\<close> is never called.
\<close>

theorem entry_point_raises_NameError:
  "main_block lib environ connect net read_csv = Inl (NameError ''os'')"
  by (simp add: main_block_def module_globals_def)

section \<open>The view\<close>

lemma filter_key_unique:
  "distinct (map f xs) \<Longrightarrow> length (filter (\<lambda>x. f x = k) xs) \<le> 1"
proof (induction xs)
  case Nil
  then show ?case by simp
next
  case (Cons x xs)
  show ?case
  proof (cases "f x = k")
    case True
    with Cons.prems have "\<forall>y\<in>set xs. f y \<noteq> k" by (auto simp: image_iff)
    then have "filter (\<lambda>x. f x = k) xs = []" by (simp add: filter_empty_conv)
    with True show ?thesis by simp
  next
    case False
    with Cons show ?thesis by simp
  qed
qed

lemma find_filter_Cons: "filter P xs = m # ms \<Longrightarrow> find P xs = Some m"
  by (induction xs) (auto split: if_splits)

lemma find_filter_Nil: "filter P xs = [] \<Longrightarrow> find P xs = None"
  by (simp add: filter_empty_conv find_None_iff)

lemma left_join_unique:
  assumes "\<And>l. length (filter (on l) rs) \<le> 1"
  shows "left_join on ls rs = map (\<lambda>l. (l, find (on l) rs)) ls"
proof -
  have one: "(case filter (on l) rs of [] \<Rightarrow> [(l, None)] | m # ms \<Rightarrow> map (\<lambda>m'. (l, Some m')) (m # ms))
               = [(l, find (on l) rs)]" for l
  proof (cases "filter (on l) rs")
    case Nil
    then show ?thesis by (simp add: find_filter_Nil)
  next
    case (Cons m ms)
    with assms [of l] have "ms = []" by simp
    with Cons show ?thesis by (simp add: find_filter_Cons)
  qed
  show ?thesis
    by (induction ls) (simp_all add: left_join_def one)
qed

lemma key_match_unique:
  assumes "distinct (map pk rs)" and "list_all (\<lambda>r. length r = n) rs" and "0 < n"
  shows "length (filter (\<lambda>a. sql_eq (text_at a 0) c) rs) \<le> 1"
proof (cases c)
  case (StrC s)
  have "filter (\<lambda>a. sql_eq (text_at a 0) c) rs = filter (\<lambda>a. pk a = [s]) rs"
  proof (rule filter_cong [OF refl])
    fix a assume "a \<in> set rs"
    with assms(2,3) have "0 < length a" by (auto simp: list_all_iff)
    then obtain x xs where "a = x # xs" by (cases a) auto
    then show "sql_eq (text_at a 0) c = (pk a = [s])"
      by (auto simp: sql_eq_def text_at_def pk_def StrC)
  qed
  with filter_key_unique [OF assms(1)] show ?thesis by simp
qed (simp_all add: sql_eq_def text_at_def)

lemma table_arity_pos: "0 < table_arity t"
  by (cases t) auto

lemma dims_ok_table:
  "dims_ok conn \<Longrightarrow> distinct (map pk (get_table conn t)) \<and> list_all (\<lambda>r. length r = table_arity t) (get_table conn t)"
  by (cases t) (auto simp: dims_ok_def)

lemma data_view_unique:
  assumes "dims_ok conn"
  shows "data_view conn =
     map (\<lambda>d. select_cols (((d, find (\<lambda>a. sql_eq (text_at a 0) (area_code d)) (areas conn)),
                                find (\<lambda>i. sql_eq (text_at i 0) (item_code d)) (items conn)),
                                find (\<lambda>p. sql_eq (text_at p 0) (period d)) (periods conn))) (data conn)"
proof -
  have a: "\<And>c. length (filter (\<lambda>a. sql_eq (text_at a 0) c) (areas conn)) \<le> 1"
    using dims_ok_table [OF assms, of Areas] key_match_unique [of "areas conn" 5] by simp
  have i: "\<And>c. length (filter (\<lambda>a. sql_eq (text_at a 0) c) (items conn)) \<le> 1"
    using dims_ok_table [OF assms, of Items] key_match_unique [of "items conn" 5] by simp
  have p: "\<And>c. length (filter (\<lambda>a. sql_eq (text_at a 0) c) (periods conn)) \<le> 1"
    using dims_ok_table [OF assms, of Periods] key_match_unique [of "periods conn" 3] by simp
  show ?thesis
    unfolding data_view_def
    by (simp add: left_join_unique [where rs = "areas conn", OF a]
        left_join_unique [where rs = "items conn", OF i]
        left_join_unique [where rs = "periods conn", OF p] o_def)
qed

lemma dims_ok_iff:
  "dims_ok conn \<longleftrightarrow> (\<forall>t. distinct (map pk (get_table conn t)) \<and> list_all (\<lambda>r. length r = table_arity t) (get_table conn t))"
proof
  assume "dims_ok conn"
  then show "\<forall>t. distinct (map pk (get_table conn t)) \<and> list_all (\<lambda>r. length r = table_arity t) (get_table conn t)"
    using dims_ok_table by blast
next
  assume "\<forall>t. distinct (map pk (get_table conn t)) \<and> list_all (\<lambda>r. length r = table_arity t) (get_table conn t)"
  then show "dims_ok conn" by (simp add: dims_ok_def)
qed

lemma dims_ok_init: "dims_ok init_db"
  by (simp add: dims_ok_def init_db_def)

lemma bulk_insert_dims_ok:
  assumes "bulk_insert conn t rows = Inr (conn', k)" and "dims_ok conn"
  shows "dims_ok conn'"
proof -
  from assms(1) obtain r0 rs where rows: "rows = r0 # rs" and ar: "length r0 = table_arity t"
    by (auto simp: bulk_insert_def split: list.splits if_splits)
  from assms(1) rows ar obtain tbl' where ex: "executemany_or_ignore (table_arity t) (get_table conn t, 0) rows = Inr (tbl', k)"
    and c': "conn' = set_table conn t tbl'"
    by (auto simp: bulk_insert_def and_then_def split: sum.splits)
  from assms(2) have old: "distinct (map pk (get_table conn t))" "list_all (\<lambda>r. length r = table_arity t) (get_table conn t)"
    using dims_ok_table by blast+
  from executemany_or_ignore_Inr [OF ex] obtain added where
    w: "list_all (\<lambda>r. length r = table_arity t) rows" and a: "tbl' = get_table conn t @ added" "set added \<subseteq> set rows"
    by blast
  from w a(2) have "list_all (\<lambda>r. length r = table_arity t) added"
    by (auto simp: list_all_iff)
  with old(2) a(1) have len: "list_all (\<lambda>r. length r = table_arity t) tbl'" by simp
  have dis: "distinct (map pk tbl')"
    using executemany_or_ignore_distinct [OF ex old(1)] .
  show ?thesis
    unfolding dims_ok_iff
  proof
    fix t'
    show "distinct (map pk (get_table conn' t')) \<and> list_all (\<lambda>r. length r = table_arity t') (get_table conn' t')"
    proof (cases "t' = t")
      case True
      with c' len dis show ?thesis by simp
    next
      case False
      with c' have "get_table conn' t' = get_table conn t'" by (simp add: get_table_other)
      with assms(2) show ?thesis using dims_ok_table by simp
    qed
  qed
qed

lemma insert_non_data_table_result:
  "fst (insert_non_data_table net conn url t sep) = conn
   \<or> (\<exists>rows k. bulk_insert conn t rows = Inr (fst (insert_non_data_table net conn url t sep), k))"
  by (auto simp: insert_non_data_table_def read_text_from_url_def and_then_def
      split: sum.splits prod.splits option.splits)

lemma insert_non_data_table_dims_ok:
  "dims_ok conn \<Longrightarrow> dims_ok (fst (insert_non_data_table net conn url t sep))"
  using insert_non_data_table_result [of net conn url t sep] bulk_insert_dims_ok by auto

lemma bulk_insert_data:
  "bulk_insert conn t rows = Inr (conn', k) \<Longrightarrow> data conn' = data conn"
  by (auto simp: bulk_insert_def and_then_def split: list.splits if_splits sum.splits)

lemma insert_non_data_table_data:
  "data (fst (insert_non_data_table net conn url t sep)) = data conn"
  using insert_non_data_table_result [of net conn url t sep] bulk_insert_data by auto

lemma to_sql_result:
  "to_sql lib df conn = Inr conn' \<Longrightarrow>
   conn' = conn \<or> (\<exists>tbl'. executemany_insert lib (data conn) (map (row_at (resolved df)) [0..<nrows df]) = Inr tbl' \<and> conn' = conn\<lparr>data := tbl'\<rparr>)"
  by (auto simp: to_sql_def and_then_def split: if_splits sum.splits)

lemma insert_data_table_result:
  "fst (insert_data_table lib net read_csv conn url cols sep) = conn
   \<or> (\<exists>kvs tbl'. executemany_insert lib (data conn) kvs = Inr tbl' \<and>
         fst (insert_data_table lib net read_csv conn url cols sep) = conn\<lparr>data := tbl'\<rparr>)"
proof (cases "\<exists>df. to_sql lib df conn = Inr (fst (insert_data_table lib net read_csv conn url cols sep))")
  case True
  then show ?thesis using to_sql_result by blast
next
  case False
  then have "fst (insert_data_table lib net read_csv conn url cols sep) = conn"
    by (auto simp: insert_data_table_def read_text_from_url_def and_then_def
        split: sum.splits prod.splits option.splits)
  then show ?thesis ..
qed

lemma dims_ok_data_update: "dims_ok (conn\<lparr>data := tbl\<rparr>) = dims_ok conn"
  by (simp add: dims_ok_def)

lemma insert_data_table_dims_ok:
  "dims_ok conn \<Longrightarrow> dims_ok (fst (insert_data_table lib net read_csv conn url cols sep))"
  using insert_data_table_result [of lib net read_csv conn url cols sep]
  by (auto simp: dims_ok_data_update)

lemma reachable_dims_ok: "reachable conn \<Longrightarrow> dims_ok conn"
  by (induction rule: reachable.induct)
    (simp_all add: dims_ok_init insert_non_data_table_dims_ok insert_data_table_dims_ok)

lemma example_db_value:
  "example_db = \<lparr>areas = [], periods = [], items = [],
     data = [\<lparr>row_id = 1, series_id = StrC ''CUSR0000SA0      '', prefix = StrC ''CU'',
              seasonal = StrC ''S'', periodicity = StrC ''R'', area_code = StrC ''0000'',
              item_code = StrC ''SA0'', year = IntC 2020, period = StrC ''M01'',
              val = FloatC 257.971, footnote_codes = Null\<rparr>]\<rparr>"
  by code_simp

lemma example_db_reachable: "reachable example_db"
  unfolding example_db_def by (rule reachable.fact [OF reachable.init])

lemma no_period_db_reachable: "reachable no_period_db"
  unfolding no_period_db_def by (rule reachable.fact [OF reachable.init])

text \<open>
  Claim C2. In every state the loaders can reach, the view has exactly one row for each
  row of the fact table, in the same order and with the fact's own columns, so the count
  \<open>create_view\<close> prints is the row count of \<open>data\<close>; a fact row whose area code matches
  no row of \<open>areas\<close> is in the view with a \<open>NULL\<close> area name.
\<close>

theorem view_keeps_every_observation:
  assumes "reachable conn"
  shows "length (data_view conn) = length (data conn)
       \<and> snd (create_view conn) = [Print (Created_view (length (data conn)))]
       \<and> (\<forall>i<length (data conn).
            v_series_id (data_view conn ! i) = series_id (data conn ! i)
          \<and> v_area_code (data_view conn ! i) = area_code (data conn ! i)
          \<and> v_item_code (data_view conn ! i) = item_code (data conn ! i)
          \<and> v_year (data_view conn ! i) = year (data conn ! i)
          \<and> v_period (data_view conn ! i) = period (data conn ! i)
          \<and> v_value (data_view conn ! i) = val (data conn ! i)
          \<and> (\<not> list_ex (\<lambda>a. sql_eq (text_at a 0) (area_code (data conn ! i))) (areas conn)
                \<longrightarrow> v_area_name (data_view conn ! i) = Null))"
proof -
  from assms have ok: "dims_ok conn" by (rule reachable_dims_ok)
  note v = data_view_unique [OF ok]
  have len: "length (data_view conn) = length (data conn)"
    by (simp add: v)
  have unmatched: "find (\<lambda>a. sql_eq (text_at a 0) c) (areas conn) = None"
    if "\<not> list_ex (\<lambda>a. sql_eq (text_at a 0) c) (areas conn)" for c
    using that by (simp add: find_None_iff list_ex_iff)
  show ?thesis
    using len unmatched
    by (simp add: v create_view_def select_cols_def col_of_def)
qed

theorem view_keeps_every_observation_witness:
  "reachable example_db
   \<and> length (data example_db) = 1
   \<and> \<not> list_ex (\<lambda>a. sql_eq (text_at a 0) (area_code (data example_db ! 0))) (areas example_db)
   \<and> length (data_view example_db) = length (data example_db)
   \<and> snd (create_view example_db) = [Print (Created_view 1)]
   \<and> v_series_id (data_view example_db ! 0) = series_id (data example_db ! 0)
   \<and> v_area_name (data_view example_db ! 0) = Null"
proof -
  have r: "reachable example_db" by (rule example_db_reachable)
  have n: "length (data example_db) = 1" by (simp add: example_db_value)
  have u: "\<not> list_ex (\<lambda>a. sql_eq (text_at a 0) (area_code (data example_db ! 0))) (areas example_db)"
    by (simp add: example_db_value)
  from view_keeps_every_observation [OF r] n u
  have "length (data_view example_db) = length (data example_db)
      \<and> snd (create_view example_db) = [Print (Created_view 1)]
      \<and> v_series_id (data_view example_db ! 0) = series_id (data example_db ! 0)
      \<and> v_area_name (data_view example_db ! 0) = Null"
    by simp
  with r n u show ?thesis by blast
qed

section \<open>The constraints of the fact table\<close>

lemma key_Null [simp]: "key c = Null \<longleftrightarrow> c = Null"
  by (cases c) (auto simp: key_def)

lemma unique_conflict_iff:
  "unique_conflict r' r \<longleftrightarrow> complete_triple r \<and> triple r' = triple r"
  by (auto simp: unique_conflict_def complete_triple_def triple_def)

lemma complete_triple_cong:
  assumes "triple r' = triple r"
  shows "complete_triple r' = complete_triple r"
proof -
  from assms have "key (series_id r') = key (series_id r)" "key (year r') = key (year r)"
    "key (period r') = key (period r)"
    by (simp_all add: triple_def)
  then have "(series_id r' = Null) = (series_id r = Null)" "(year r' = Null) = (year r = Null)"
    "(period r' = Null) = (period r = Null)"
    by (metis key_Null)+
  then show ?thesis by (simp add: complete_triple_def)
qed

lemma distinct_map_outer: "distinct (map (\<lambda>x. h (f x)) xs) \<Longrightarrow> distinct (map f xs)"
  by (induction xs) auto

lemma store_Inr:
  assumes "store tbl r = Inr tbl'"
  shows "tbl' = tbl @ [r] \<and> (complete_triple r \<longrightarrow> triple r \<notin> set (map triple (filter complete_triple tbl)))"
proof -
  from assms have t: "tbl' = tbl @ [r]" and n: "\<not> list_ex (\<lambda>r'. unique_conflict r' r) tbl"
    by (auto simp: store_def split: if_splits)
  from n have "complete_triple r \<longrightarrow> triple r \<notin> set (map triple (filter complete_triple tbl))"
    by (auto simp: list_ex_iff unique_conflict_iff)
  with t show ?thesis by simp
qed

lemma store_free:
  assumes "complete_triple r \<longrightarrow> triple r \<notin> set (map triple (filter complete_triple tbl))"
  shows "store tbl r = Inr (tbl @ [r])"
proof -
  have "\<not> list_ex (\<lambda>r'. unique_conflict r' r) tbl"
  proof
    assume "list_ex (\<lambda>r'. unique_conflict r' r) tbl"
    then obtain r' where r': "r' \<in> set tbl" "complete_triple r" "triple r' = triple r"
      by (auto simp: list_ex_iff unique_conflict_iff)
    then have "complete_triple r'" using complete_triple_cong by blast
    with r'(1) have "r' \<in> set (filter complete_triple tbl)" by simp
    then have "triple r' \<in> triple ` set (filter complete_triple tbl)" by (rule imageI)
    with r'(3) have "triple r \<in> set (map triple (filter complete_triple tbl))" by simp
    with assms r'(2) show False by simp
  qed
  then show ?thesis by (simp add: store_def)
qed

lemma row_id_mk_obs [simp]: "row_id (mk_obs lib i kv) = i"
  by (simp add: mk_obs_def)

lemma store_facts_ok:
  assumes "store tbl r = Inr tbl'" and "facts_ok tbl" and "row_id r \<notin> set (map row_id tbl)"
  shows "facts_ok tbl'"
  using store_Inr [OF assms(1)] assms(2,3)
  by (auto simp: facts_ok_def)

lemma insert_one_Inr:
  assumes "insert_one lib tbl kv = Inr tbl'" and "facts_ok tbl"
  shows "facts_ok tbl' \<and> (\<exists>added. tbl' = tbl @ added)"
proof -
  from assms(1) obtain i where
    step: "(if i \<in> set (map row_id tbl) then Inr tbl else store tbl (mk_obs lib i kv)) = Inr tbl'"
    by (auto simp: insert_one_def and_then_def split: if_splits sum.splits)
  show ?thesis
  proof (cases "i \<in> set (map row_id tbl)")
    case True
    with step assms(2) show ?thesis by simp
  next
    case False
    with step have s: "store tbl (mk_obs lib i kv) = Inr tbl'" by simp
    from False have "row_id (mk_obs lib i kv) \<notin> set (map row_id tbl)" by simp
    with store_facts_ok [OF s assms(2)] have "facts_ok tbl'" by simp
    moreover from store_Inr [OF s] have "\<exists>added. tbl' = tbl @ added" by blast
    ultimately show ?thesis ..
  qed
qed

lemma executemany_insert_Inr:
  "executemany_insert lib tbl kvs = Inr tbl' \<Longrightarrow> facts_ok tbl \<Longrightarrow> facts_ok tbl' \<and> (\<exists>added. tbl' = tbl @ added)"
proof (induction kvs arbitrary: tbl)
  case Nil
  then show ?case by simp
next
  case (Cons kv kvs)
  from Cons.prems(1) obtain t1 where one: "insert_one lib tbl kv = Inr t1" and rest: "executemany_insert lib t1 kvs = Inr tbl'"
    by (auto simp: and_then_def split: sum.splits)
  from insert_one_Inr [OF one Cons.prems(2)] obtain a1 where ok1: "facts_ok t1" and t1: "t1 = tbl @ a1"
    by blast
  from Cons.IH [OF rest ok1] obtain a2 where ok: "facts_ok tbl'" and t2: "tbl' = t1 @ a2"
    by blast
  from t1 t2 have "tbl' = tbl @ (a1 @ a2)" by simp
  then have "\<exists>added. tbl' = tbl @ added" ..
  with ok show ?case ..
qed

lemma insert_data_table_facts:
  assumes "facts_ok (data conn)"
  shows "facts_ok (data (fst (insert_data_table lib net read_csv conn url cols sep)))
       \<and> (\<exists>added. data (fst (insert_data_table lib net read_csv conn url cols sep)) = data conn @ added)"
proof -
  from insert_data_table_result [of lib net read_csv conn url cols sep]
  consider "fst (insert_data_table lib net read_csv conn url cols sep) = conn"
    | kvs tbl' where "executemany_insert lib (data conn) kvs = Inr tbl'"
        "fst (insert_data_table lib net read_csv conn url cols sep) = conn\<lparr>data := tbl'\<rparr>"
    by blast
  then show ?thesis
  proof cases
    case 1
    with assms show ?thesis by simp
  next
    case 2
    from executemany_insert_Inr [OF 2(1) assms] 2(2) show ?thesis by simp
  qed
qed

lemma reachable_facts_ok: "reachable conn \<Longrightarrow> facts_ok (data conn)"
proof (induction rule: reachable.induct)
  case init
  show ?case by (simp add: facts_ok_def init_db_def)
next
  case (dimension conn net url table_name separator)
  then show ?case by (simp add: insert_non_data_table_data)
next
  case (fact conn lib net read_csv url cols separator)
  then show ?case using insert_data_table_facts by blast
qed

lemma count_in_distinct:
  "distinct (map f xs) \<Longrightarrow> x \<in> set xs \<Longrightarrow> length (filter (\<lambda>y. f y = f x) xs) = 1"
proof (induction xs)
  case Nil
  then show ?case by simp
next
  case (Cons a xs)
  show ?case
  proof (cases "f a = f x")
    case True
    with Cons.prems have "\<forall>y\<in>set xs. f y \<noteq> f x" by (auto simp: image_iff)
    then have "filter (\<lambda>y. f y = f x) xs = []" by (simp add: filter_empty_conv)
    with True show ?thesis by simp
  next
    case False
    with Cons show ?thesis by auto
  qed
qed

text \<open>
  Claim C3, as the code has it. In every state the loaders can reach, no two rows of the
  fact table have the same (series_id, year, period) when none of the three is \<open>NULL\<close>:
  not as stored values, and not as SQLite compares them (\<open>triple\<close>). After any further
  \<open>insert_data_table\<close> an observation that was present with such a triple is still the
  only row with it.
\<close>

theorem complete_triples_stay_unique:
  assumes "reachable conn"
  shows "distinct (map triple (filter complete_triple (data conn)))
       \<and> distinct (map (\<lambda>r. (series_id r, year r, period r)) (filter complete_triple (data conn)))
       \<and> (\<forall>r\<in>set (data conn). complete_triple r \<longrightarrow>
            length (filter (\<lambda>r'. triple r' = triple r)
                      (data (fst (insert_data_table lib net read_csv conn url cols sep)))) = 1)"
proof (intro conjI)
  from assms have ok: "facts_ok (data conn)" by (rule reachable_facts_ok)
  then show d: "distinct (map triple (filter complete_triple (data conn)))"
    by (simp add: facts_ok_def)
  from d have "distinct (map (\<lambda>r. (\<lambda>(a, b, c). (key a, key b, key c)) (series_id r, year r, period r))
                          (filter complete_triple (data conn)))"
    by (simp add: triple_def [abs_def])
  then show "distinct (map (\<lambda>r. (series_id r, year r, period r)) (filter complete_triple (data conn)))"
    by (rule distinct_map_outer)
  define after where "after = data (fst (insert_data_table lib net read_csv conn url cols sep))"
  from insert_data_table_facts [OF ok, of lib net read_csv url cols sep]
  obtain added where ok': "facts_ok after" and ext: "after = data conn @ added"
    unfolding after_def by blast
  have "length (filter (\<lambda>r'. triple r' = triple r) after) = 1"
    if r: "r \<in> set (data conn)" "complete_triple r" for r
  proof -
    have "triple r' = triple r \<longrightarrow> complete_triple r'" for r'
      using r(2) complete_triple_cong [of r' r] by simp
    then have "(\<lambda>r'. complete_triple r' \<and> triple r' = triple r) = (\<lambda>r'. triple r' = triple r)"
      by blast
    then have same: "filter (\<lambda>r'. triple r' = triple r) after
                = filter (\<lambda>r'. triple r' = triple r) (filter complete_triple after)"
      by simp
    from r ext have "r \<in> set (filter complete_triple after)" by simp
    with ok' have "length (filter (\<lambda>r'. triple r' = triple r) (filter complete_triple after)) = 1"
      by (intro count_in_distinct) (simp_all add: facts_ok_def)
    with same show ?thesis by simp
  qed
  then show "\<forall>r\<in>set (data conn). complete_triple r \<longrightarrow>
            length (filter (\<lambda>r'. triple r' = triple r)
                      (data (fst (insert_data_table lib net read_csv conn url cols sep)))) = 1"
    unfolding after_def by blast
qed

theorem complete_triples_stay_unique_witness:
  "reachable example_db
   \<and> data example_db ! 0 \<in> set (data example_db)
   \<and> complete_triple (data example_db ! 0)
   \<and> distinct (map triple (filter complete_triple (data example_db)))
   \<and> distinct (map (\<lambda>r. (series_id r, year r, period r)) (filter complete_triple (data example_db)))
   \<and> length (filter (\<lambda>r'. triple r' = triple (data example_db ! 0)) (data reloaded_db)) = 1"
proof -
  have r: "reachable example_db" by (rule example_db_reachable)
  have m: "data example_db ! 0 \<in> set (data example_db)" by (simp add: example_db_value)
  have c: "complete_triple (data example_db ! 0)"
    by (simp add: example_db_value complete_triple_def)
  from complete_triples_stay_unique [OF r, of example_libs example_net example_read_csv "base_url @ data_file" data_cols "[CHR 0x09]"] m c
  have "distinct (map triple (filter complete_triple (data example_db)))
      \<and> distinct (map (\<lambda>r. (series_id r, year r, period r)) (filter complete_triple (data example_db)))
      \<and> length (filter (\<lambda>r'. triple r' = triple (data example_db ! 0)) (data reloaded_db)) = 1"
    unfolding reloaded_db_def by blast
  with r m c show ?thesis by blast
qed

text \<open>
  Claim C3 as stated fails for rows with a \<open>NULL\<close>: \<open>UNIQUE\<close> never rejects them. Loading
  a fact file of two rows with the same series and year and no period into the empty
  table stores both.
\<close>

theorem triples_with_null_repeat_counterexample:
  "reachable no_period_db
   \<and> map (\<lambda>r. (row_id r, series_id r, year r, period r)) (data no_period_db)
       = [(1, StrC ''CUSR0000SA0'', IntC 2020, Null), (2, StrC ''CUSR0000SA0'', IntC 2020, Null)]
   \<and> \<not> distinct (map (\<lambda>r. (series_id r, year r, period r)) (data no_period_db))"
proof (intro conjI)
  show "reachable no_period_db" by (rule no_period_db_reachable)
  show "map (\<lambda>r. (row_id r, series_id r, year r, period r)) (data no_period_db)
       = [(1, StrC ''CUSR0000SA0'', IntC 2020, Null), (2, StrC ''CUSR0000SA0'', IntC 2020, Null)]"
    by code_simp
  show "\<not> distinct (map (\<lambda>r. (series_id r, year r, period r)) (data no_period_db))" by code_simp
qed

section \<open>The loader of the fact table\<close>

lemma filter_name_distinct:
  "distinct (map fst ps) \<Longrightarrow> map_of ps c = Some v \<Longrightarrow> filter (\<lambda>p. fst p = c) ps = [(c, v)]"
proof (induction ps)
  case Nil
  then show ?case by simp
next
  case (Cons p ps)
  show ?case
  proof (cases "fst p = c")
    case True
    with Cons.prems have "filter (\<lambda>p. fst p = c) ps = []" and "p = (c, v)"
      by (auto simp: filter_empty_conv image_iff)
    with True show ?thesis by simp
  next
    case False
    with Cons show ?thesis by simp
  qed
qed

lemma concat_singletons: "concat (map (\<lambda>c. [g c]) cols) = map g cols"
  by (induction cols) simp_all

lemma arrange_data_cols_present:
  assumes "set cols \<subseteq> fst ` set (columns df)" and "distinct (map fst (columns df))"
  shows "arrange_data_cols df cols = Inr (df\<lparr>columns := map (\<lambda>c. (c, the (map_of (columns df) c))) cols\<rparr>)"
proof -
  have "\<not> (\<exists>c. c \<in> set cols \<and> map_of (columns df) c = None)"
    using assms(1) by (auto simp: map_of_eq_None_iff)
  then have f: "find (\<lambda>c. map_of (columns df) c = None) cols = None"
    by (simp add: find_None_iff)
  have "filter (\<lambda>p. fst p = c) (columns df) = [(c, the (map_of (columns df) c))]" if "c \<in> set cols" for c
  proof -
    from that assms(1) obtain v where "map_of (columns df) c = Some v"
      by (cases "map_of (columns df) c") (auto simp: map_of_eq_None_iff)
    with filter_name_distinct [OF assms(2) this] show ?thesis by simp
  qed
  then have "map (\<lambda>c. filter (\<lambda>p. fst p = c) (columns df)) cols
               = map (\<lambda>c. [(c, the (map_of (columns df) c))]) cols"
    by simp
  then have "concat (map (\<lambda>c. filter (\<lambda>p. fst p = c) (columns df)) cols)
               = map (\<lambda>c. (c, the (map_of (columns df) c))) cols"
    by (simp only: concat_singletons)
  with f show ?thesis by (simp add: arrange_data_cols_def)
qed

lemma distinct_decomposed:
  "distinct (map fst (columns df)) \<Longrightarrow> distinct (map fst (columns (decomposed ids xs df)))"
  unfolding decomposed_def by (intro distinct_set_col)

lemma text_to_df_Some:
  "text_to_df read_csv content sep = (Some df, out) \<Longrightarrow> out = []"
  by (auto simp: text_to_df_def split: sum.splits)

lemma map_of_rev_distinct: "distinct (map fst kv) \<Longrightarrow> map_of (rev kv) = map_of kv"
  by (rule map_of_inject_set [THEN iffD2]) (simp_all flip: rev_map)

lemma map_of_tabulate: "c \<in> set cols \<Longrightarrow> map_of (map (\<lambda>c. (c, g c)) cols) c = Some (g c)"
  by (induction cols) auto

lemma sql_name_known: "name \<in> set data_columns \<Longrightarrow> sql_name name = name"
  by (auto simp: data_columns_def sql_name_def lower_def)

lemma resolved_known:
  assumes "set (map fst (columns df)) \<subseteq> set data_columns"
  shows "resolved df = df"
proof -
  have "map (\<lambda>p. (sql_name (fst p), snd p)) kv = kv" if "set (map fst kv) \<subseteq> set data_columns" for kv :: "(string \<times> cell list) list"
    using that by (induction kv) (auto simp: sql_name_known)
  from this [OF assms] show ?thesis by (simp add: resolved_def)
qed

lemma field_distinct:
  assumes "distinct (map fst kv)"
  shows "field kv name = (case map_of kv name of None \<Rightarrow> Null | Some v \<Rightarrow> v)"
  using assms by (simp add: field_def map_of_rev_distinct)

lemma rowid_of_integer: "rowid_of lib tbl (IntC i) = Inr i"
  by (simp add: rowid_of_def integer_affinity_def)

lemma executemany_insert_all:
  "list_all2 (\<lambda>kv r. list_all bindable (map snd kv) \<and> field kv ''id'' = IntC (row_id r) \<and>
                      r = mk_obs lib (row_id r) kv) kvs news \<Longrightarrow>
   facts_ok (tbl @ news) \<Longrightarrow> executemany_insert lib tbl kvs = Inr (tbl @ news)"
proof (induction arbitrary: tbl rule: list_all2_induct)
  case Nil
  then show ?case by simp
next
  case (Cons kv kvs r news)
  from Cons.hyps(1) have b: "list_all bindable (map snd kv)"
    and idc: "field kv ''id'' = IntC (row_id r)" and r: "mk_obs lib (row_id r) kv = r"
    by simp_all
  from Cons.prems have fresh: "row_id r \<notin> set (map row_id tbl)"
    by (auto simp: facts_ok_def)
  from Cons.prems have "complete_triple r \<longrightarrow> triple r \<notin> set (map triple (filter complete_triple tbl))"
    by (auto simp: facts_ok_def)
  then have "store tbl r = Inr (tbl @ [r])" by (rule store_free)
  with b idc r fresh have one: "insert_one lib tbl kv = Inr (tbl @ [r])"
    by (simp add: insert_one_def and_then_def rowid_of_integer)
  from Cons.prems have "facts_ok ((tbl @ [r]) @ news)" by simp
  then have "executemany_insert lib (tbl @ [r]) kvs = Inr ((tbl @ [r]) @ news)" by (rule Cons.IH)
  with one show ?case by (simp add: and_then_def)
qed

lemma get_col_Inr_iff: "get_col df name = Inr col \<longleftrightarrow> map_of (columns df) name = Some col"
  by (auto simp: get_col_def split: option.splits)

lemma decomposed_cols:
  "get_col (decomposed ids xs df) ''id'' = Inr ids"
  "get_col (decomposed ids xs df) ''prefix'' = Inr (map (\<lambda>x. StrC (prefix_of x)) xs)"
  "get_col (decomposed ids xs df) ''seasonal'' = Inr (map (\<lambda>x. StrC (seasonal_of x)) xs)"
  "get_col (decomposed ids xs df) ''periodicity'' = Inr (map (\<lambda>x. StrC (periodicity_of x)) xs)"
  "get_col (decomposed ids xs df) ''area_code'' = Inr (map (\<lambda>x. StrC (area_code_of x)) xs)"
  "get_col (decomposed ids xs df) ''item_code'' = Inr (map (\<lambda>x. StrC (item_code_of x)) xs)"
  by (simp_all add: decomposed_def get_col_set_col)

lemma nrows_decomposed [simp]: "nrows (decomposed ids xs df) = nrows df"
  by (simp add: decomposed_def)

lemma insert_data_table_parsed:
  assumes "net url = Inr content" and "content \<noteq> []"
    and "text_to_df read_csv content sep = (Some df, out)"
    and "get_data_cols lib df = Inr dec"
    and "arrange_data_cols dec cols = Inr written"
  shows "insert_data_table lib net read_csv conn url cols sep =
           (case to_sql lib written conn of
              Inl e \<Rightarrow> (conn, [Urlopen url, Print (Error_line e)])
            | Inr conn' \<Rightarrow> (conn', [Urlopen url]))"
proof -
  from assms(3) have "out = []" by (rule text_to_df_Some)
  with assms show ?thesis
    by (simp add: insert_data_table_def read_text_from_url_def and_then_def split: sum.splits)
qed

lemma map_of_map_snd:
  "map_of (map (\<lambda>p. (fst p, g (snd p))) ps) k = map_option g (map_of ps k)"
  by (induction ps) auto

lemma to_sql_all:
  assumes id: "map_of (columns written) ''id'' = Some (map (\<lambda>i. IntC (int i + 1)) [0..<nrows written])"
    and dist: "distinct (map fst (columns written))"
    and known: "set (map fst (columns written)) \<subseteq> set data_columns"
    and bind: "list_all (\<lambda>i. list_all bindable (map snd (row_at written i))) [0..<nrows written]"
    and ok: "facts_ok (data conn @ map (\<lambda>i. mk_obs lib (int i + 1) (row_at written i)) [0..<nrows written])"
  shows "to_sql lib written conn =
           Inr (conn\<lparr>data := data conn @ map (\<lambda>i. mk_obs lib (int i + 1) (row_at written i)) [0..<nrows written]\<rparr>)"
proof -
  have "name \<noteq> [] \<and> CHR 0x00 \<notin> set name" if "name \<in> set data_columns" for name
    using that by (auto simp: data_columns_def)
  with known have valid: "\<not> list_ex (\<lambda>name. name = [] \<or> CHR 0x00 \<in> set name) (map fst (columns written))"
    unfolding list_ex_iff by blast
  show ?thesis
  proof (cases "nrows written = 0")
  case True
  then show ?thesis using valid by (simp add: to_sql_def)
next
  case False
  from id have ne: "columns written \<noteq> []" by auto
  from known have res: "resolved written = written" by (rule resolved_known)
  from known have kn: "\<not> list_ex (\<lambda>name. name \<notin> set data_columns) (map fst (columns written))"
    by (auto simp: list_ex_iff)
  have idf: "field (row_at written i) ''id'' = IntC (int i + 1)" if "i < nrows written" for i
  proof -
    have d: "distinct (map fst (row_at written i))"
      using dist by (simp add: row_at_def o_def)
    have "map_of (row_at written i) ''id'' = map_option (\<lambda>col. col ! i) (map_of (columns written) ''id'')"
      unfolding row_at_def by (rule map_of_map_snd)
    with id that have "map_of (row_at written i) ''id'' = Some (IntC (int i + 1))" by simp
    then show ?thesis by (simp add: field_distinct [OF d])
  qed
  from bind have bi: "list_all bindable (map snd (row_at written i))" if "i < nrows written" for i
    using that by (simp add: list_all_iff)
  have "list_all2 (\<lambda>kv r. list_all bindable (map snd kv) \<and> field kv ''id'' = IntC (row_id r) \<and>
                           r = mk_obs lib (row_id r) kv)
          (map (row_at written) [0..<nrows written])
          (map (\<lambda>i. mk_obs lib (int i + 1) (row_at written i)) [0..<nrows written])"
    by (simp add: list_all2_map1 list_all2_map2 list_all2_same idf bi)
  from executemany_insert_all [OF this ok] False ne kn valid show ?thesis
    by (simp add: to_sql_def and_then_def res)
  qed
qed

lemma example_parse: "text_to_df example_read_csv data_text [CHR 0x09] = (Some stripped_frame, [])"
  by (simp add: text_to_df_def example_read_csv_def example_frame_def stripped_frame_def
      py_strip_def py_lstrip_def py_rstrip_def py_isspace_def)

lemma example_fetch: "example_net (base_url @ data_file) = Inr data_text"
  by (simp add: example_net_def base_url_def data_file_def period_codes_def item_codes_def)

text \<open>
  Claim C9, as the code has it. For a fetched text parsed into a frame of \<open>n\<close> rows under
  the default index, whose column names, once stripped, are distinct and whose
  \<open>series_id\<close> column holds strings, and a column order that names \<open>id\<close> and only columns
  of the frame and of the table, each once:
  \<open>insert_data_table\<close> gives row \<open>i\<close> the id \<open>i + 1\<close>, adds the five sub-fields of
  \<open>series_id\<close>, puts the columns in the given order and hands all \<open>n\<close> rows to the insert.
  All \<open>n\<close> rows are appended to the fact table, each value coerced to the type of its
  column, when every integer of the rows fits 64 bits and the table so extended repeats
  no id and no (series_id, year, period) free of \<open>NULL\<close>.
\<close>

theorem fact_load_appends_when_no_conflict:
  assumes "net url = Inr content" and "content \<noteq> []"
    and "text_to_df read_csv content sep = (Some df, out)"
    and "index df = RangeIndex n"
    and "get_col df ''series_id'' = Inr (map StrC xs)"
    and "''id'' \<in> set cols" and "distinct cols" and "set cols \<subseteq> set data_columns"
    and "set cols \<subseteq> fst ` set (columns (decomposed (map (\<lambda>i. IntC (int i + 1)) [0..<n]) xs df))"
    and "wf_frame df"
  shows "\<exists>dec written.
           get_data_cols lib df = Inr dec
         \<and> get_col dec ''id'' = Inr (map (\<lambda>i. IntC (int i + 1)) [0..<n])
         \<and> get_col dec ''prefix'' = Inr (map (\<lambda>x. StrC (prefix_of x)) xs)
         \<and> get_col dec ''seasonal'' = Inr (map (\<lambda>x. StrC (seasonal_of x)) xs)
         \<and> get_col dec ''periodicity'' = Inr (map (\<lambda>x. StrC (periodicity_of x)) xs)
         \<and> get_col dec ''area_code'' = Inr (map (\<lambda>x. StrC (area_code_of x)) xs)
         \<and> get_col dec ''item_code'' = Inr (map (\<lambda>x. StrC (item_code_of x)) xs)
         \<and> arrange_data_cols dec cols = Inr written
         \<and> map fst (columns written) = cols
         \<and> nrows written = n
         \<and> list_all (\<lambda>c. get_col written c = get_col dec c) cols
         \<and> (list_all (\<lambda>i. list_all bindable (map snd (row_at written i))) [0..<n]
             \<and> facts_ok (data conn @ map (\<lambda>i. mk_obs lib (int i + 1) (row_at written i)) [0..<n]) \<longrightarrow>
              insert_data_table lib net read_csv conn url cols sep =
                (conn\<lparr>data := data conn @ map (\<lambda>i. mk_obs lib (int i + 1) (row_at written i)) [0..<n]\<rparr>,
                 [Urlopen url]))"
proof -
  define ids where "ids = map (\<lambda>i. IntC (int i + 1)) [0..<n]"
  define dec where "dec = decomposed ids xs df"
  define written where "written = dec\<lparr>columns := map (\<lambda>c. (c, the (map_of (columns dec) c))) cols\<rparr>"
  have ix: "index_plus_one lib (index df) = Inr ids"
    by (simp add: index_plus_one_def assms(4) ids_def)
  from assms(10) have dn: "distinct (map fst (columns df))" by (simp add: wf_frame_def)
  have g: "get_data_cols lib df = Inr dec"
    unfolding dec_def using ix assms(5) distinct_count_cols [OF dn] by (rule get_data_cols_strings)
  have a: "arrange_data_cols dec cols = Inr written"
    unfolding written_def
    using assms(9) [folded ids_def dec_def] distinct_decomposed [OF dn, of ids xs, folded dec_def]
    by (rule arrange_data_cols_present)
  have names: "map fst (columns written) = cols"
    by (simp add: written_def o_def)
  have "nrows written = nrows dec" by (simp add: written_def nrows_def)
  also have "\<dots> = nrows df" by (simp add: dec_def)
  also have "\<dots> = n" by (simp add: nrows_def assms(4))
  finally have n: "nrows written = n" .
  have same: "get_col written c = get_col dec c" if "c \<in> set cols" for c
  proof -
    from that assms(9) have "c \<in> fst ` set (columns dec)" by (auto simp: dec_def ids_def)
    then obtain v where v: "map_of (columns dec) c = Some v"
      by (cases "map_of (columns dec) c") (auto simp: map_of_eq_None_iff)
    from that have "map_of (columns written) c = Some (the (map_of (columns dec) c))"
      by (simp add: written_def map_of_tabulate)
    with v show ?thesis by (simp add: get_col_def)
  qed
  then have all: "list_all (\<lambda>c. get_col written c = get_col dec c) cols"
    by (simp add: list_all_iff)
  have "get_col written ''id'' = Inr ids"
    using same [OF assms(6)] decomposed_cols(1) [of ids xs df] by (simp add: dec_def)
  then have idcol: "map_of (columns written) ''id'' = Some (map (\<lambda>i. IntC (int i + 1)) [0..<nrows written])"
    by (simp add: get_col_Inr_iff n ids_def)
  have "insert_data_table lib net read_csv conn url cols sep =
          (conn\<lparr>data := data conn @ map (\<lambda>i. mk_obs lib (int i + 1) (row_at written i)) [0..<n]\<rparr>,
           [Urlopen url])"
    if b: "list_all (\<lambda>i. list_all bindable (map snd (row_at written i))) [0..<n]"
      and ok: "facts_ok (data conn @ map (\<lambda>i. mk_obs lib (int i + 1) (row_at written i)) [0..<n])"
  proof -
    have "to_sql lib written conn =
            Inr (conn\<lparr>data := data conn @ map (\<lambda>i. mk_obs lib (int i + 1) (row_at written i)) [0..<nrows written]\<rparr>)"
      using idcol
    proof (rule to_sql_all)
      show "distinct (map fst (columns written))" using assms(7) by (simp add: names)
      show "set (map fst (columns written)) \<subseteq> set data_columns" using assms(8) by (simp add: names)
      show "list_all (\<lambda>i. list_all bindable (map snd (row_at written i))) [0..<nrows written]"
        using b by (simp add: n)
      show "facts_ok (data conn @ map (\<lambda>i. mk_obs lib (int i + 1) (row_at written i)) [0..<nrows written])"
        using ok by (simp add: n)
    qed
    then show ?thesis
      by (simp add: insert_data_table_parsed [where net = net and url = url, OF assms(1,2,3) g a] n)
  qed
  with g a names n all decomposed_cols [of ids xs df] show ?thesis
    unfolding dec_def [symmetric] ids_def [symmetric] by blast
qed

theorem fact_load_appends_when_no_conflict_witness:
  "example_net (base_url @ data_file) = Inr data_text
   \<and> data_text \<noteq> []
   \<and> text_to_df example_read_csv data_text [CHR 0x09] = (Some stripped_frame, [])
   \<and> index stripped_frame = RangeIndex 1
   \<and> get_col stripped_frame ''series_id'' = Inr (map StrC [''CUSR0000SA0      ''])
   \<and> ''id'' \<in> set data_cols
   \<and> distinct data_cols
   \<and> set data_cols \<subseteq> set data_columns
   \<and> set data_cols \<subseteq> fst ` set (columns (decomposed (map (\<lambda>i. IntC (int i + 1)) [0..<1]) [''CUSR0000SA0      ''] stripped_frame))
   \<and> wf_frame stripped_frame
   \<and> insert_data_table example_libs example_net example_read_csv init_db (base_url @ data_file) data_cols [CHR 0x09]
        = (example_db, [Urlopen (base_url @ data_file)])
   \<and> map row_id (data example_db) = [1]
   \<and> length (data example_db) = length (data init_db) + 1"
proof -
  have h1: "example_net (base_url @ data_file) = Inr data_text" by (rule example_fetch)
  have h2: "data_text \<noteq> []" by (simp add: data_text_def)
  have h3: "text_to_df example_read_csv data_text [CHR 0x09] = (Some stripped_frame, [])"
    by (rule example_parse)
  have h4: "index stripped_frame = RangeIndex 1" by (simp add: stripped_frame_def)
  have h5: "get_col stripped_frame ''series_id'' = Inr (map StrC [''CUSR0000SA0      ''])"
    by (simp add: get_col_def stripped_frame_def)
  have h6: "''id'' \<in> set data_cols" by (simp add: data_cols_def)
  have h7: "distinct data_cols" by (simp add: data_cols_def)
  have h8: "set data_cols \<subseteq> set data_columns" by (simp add: data_cols_def data_columns_def)
  have h9: "set data_cols \<subseteq> fst ` set (columns (decomposed (map (\<lambda>i. IntC (int i + 1)) [0..<1]) [''CUSR0000SA0      ''] stripped_frame))"
    by (simp add: data_cols_def decomposed_def set_col_def set_col_list_def stripped_frame_def)
  have h10: "wf_frame stripped_frame"
    by (simp add: wf_frame_def stripped_frame_def nrows_def)
  have e: "data init_db = []" by (simp add: init_db_def)
  from fact_load_appends_when_no_conflict [where net = example_net and url = "base_url @ data_file"
      and conn = init_db and lib = example_libs, OF h1 h2 h3 h4 h5 h6 h7 h8 h9 h10]
  obtain dec written where
    d: "get_data_cols example_libs stripped_frame = Inr dec"
    and w: "arrange_data_cols dec data_cols = Inr written"
    and imp: "list_all (\<lambda>i. list_all bindable (map snd (row_at written i))) [0..<1]
       \<and> facts_ok (data init_db @ map (\<lambda>i. mk_obs example_libs (int i + 1) (row_at written i)) [0..<1]) \<longrightarrow>
       insert_data_table example_libs example_net example_read_csv init_db (base_url @ data_file) data_cols [CHR 0x09] =
         (init_db\<lparr>data := data init_db @ map (\<lambda>i. mk_obs example_libs (int i + 1) (row_at written i)) [0..<1]\<rparr>,
          [Urlopen (base_url @ data_file)])"
    by blast
  have dv: "get_data_cols example_libs stripped_frame
              = Inr (decomposed [IntC 1] [''CUSR0000SA0      ''] stripped_frame)"
    by (rule get_data_cols_strings)
      (simp_all add: index_plus_one_def stripped_frame_def get_col_def count_cols_def)
  with d have dec: "dec = decomposed [IntC 1] [''CUSR0000SA0      ''] stripped_frame" by simp
  from w have b: "list_all (\<lambda>i. list_all bindable (map snd (row_at written i))) [0..<1]"
    by (auto simp: dec arrange_data_cols_def data_cols_def decomposed_def set_col_def set_col_list_def
        stripped_frame_def row_at_def bindable_def prefix_of_def)
  have "facts_ok (data init_db @ map (\<lambda>i. mk_obs example_libs (int i + 1) (row_at written i)) [0..<1])"
    by (simp add: e facts_ok_def)
  with imp b have r: "insert_data_table example_libs example_net example_read_csv init_db (base_url @ data_file) data_cols [CHR 0x09] =
         (init_db\<lparr>data := [mk_obs example_libs 1 (row_at written 0)]\<rparr>, [Urlopen (base_url @ data_file)])"
    by (simp add: e)
  then have db: "example_db = init_db\<lparr>data := [mk_obs example_libs 1 (row_at written 0)]\<rparr>"
    by (simp add: example_db_def)
  with r have "insert_data_table example_libs example_net example_read_csv init_db (base_url @ data_file) data_cols [CHR 0x09]
        = (example_db, [Urlopen (base_url @ data_file)])"
    by simp
  moreover have "map row_id (data example_db) = [1]" by (simp add: db)
  moreover have "length (data example_db) = length (data init_db) + 1"
    by (simp add: db e)
  ultimately show ?thesis using h1 h2 h3 h4 h5 h6 h7 h8 h9 h10 by blast
qed

text \<open>
  Claim C9 as stated fails twice. Not every load appends its rows: loading the example
  fact file of one row a second time appends nothing, since the id 1 is already stored
  and the primary key is declared \<open>ON CONFLICT IGNORE\<close>. And the ids are not always
  \<open>1, \<dots>, n\<close>: for a file whose rows have one field more than the header, the ids are the
  labels read from the first field plus 1, here 8 and 10.
\<close>

theorem reload_appends_nothing_counterexample:
  "example_net (base_url @ data_file) = Inr data_text
   \<and> data_text \<noteq> []
   \<and> text_to_df example_read_csv data_text [CHR 0x09] = (Some stripped_frame, [])
   \<and> nrows stripped_frame = 1
   \<and> insert_data_table example_libs example_net example_read_csv example_db (base_url @ data_file) data_cols [CHR 0x09]
        = (example_db, [Urlopen (base_url @ data_file)])
   \<and> length (data (fst (insert_data_table example_libs example_net example_read_csv example_db (base_url @ data_file) data_cols [CHR 0x09])))
        \<noteq> length (data example_db) + nrows stripped_frame
   \<and> labelled_net (base_url @ data_file) = Inr labelled_text
   \<and> text_to_df example_read_csv labelled_text [CHR 0x09] = (Some labelled_frame, [])
   \<and> nrows labelled_frame = 2
   \<and> map row_id (data (fst (insert_data_table example_libs labelled_net example_read_csv init_db (base_url @ data_file) data_cols [CHR 0x09])))
        = [8, 10]"
proof -
  have r: "insert_data_table example_libs example_net example_read_csv example_db (base_url @ data_file) data_cols [CHR 0x09]
        = (example_db, [Urlopen (base_url @ data_file)])"
    by code_simp
  have n: "nrows stripped_frame = 1" by (simp add: stripped_frame_def nrows_def)
  have t: "data_text \<noteq> []" by (simp add: data_text_def)
  have lf: "labelled_net (base_url @ data_file) = Inr labelled_text"
    by (simp add: labelled_net_def)
  have lp: "text_to_df example_read_csv labelled_text [CHR 0x09] = (Some labelled_frame, [])"
    by code_simp
  have ln: "nrows labelled_frame = 2" by (simp add: labelled_frame_def nrows_def)
  have li: "map row_id (data (fst (insert_data_table example_libs labelled_net example_read_csv init_db (base_url @ data_file) data_cols [CHR 0x09])))
        = [8, 10]"
    by code_simp
  from r n t lf lp ln li example_fetch example_parse show ?thesis by simp
qed


end
